theory Spec2Isabelle
  imports Main
begin

section \<open>Python strings\<close>

text \<open>
  A Python \<open>str\<close> is a sequence of code points. The model takes the code points
  U+0000 to U+00FF, which are the 256 values of \<^typ>\<open>char\<close>: a \<^typ>\<open>string\<close> is a
  Python string over that range. On it \<open>str.isspace\<close> (the characters that
  \<open>str.strip()\<close> removes) holds of U+0009 to U+000D, U+001C to U+0020, U+0085 and
  U+00A0, and \<open>str.isdigit\<close> holds of \<open>0\<close> to \<open>9\<close> and of the superscript
  digits U+00B2, U+00B3 and U+00B9.
\<close>

definition py_isspace :: "char \<Rightarrow> bool" where
  "py_isspace c =
     (c \<in> set [CHR 0x09, CHR 0x0A, CHR 0x0B, CHR 0x0C, CHR 0x0D,
                CHR 0x1C, CHR 0x1D, CHR 0x1E, CHR 0x1F, CHR 0x20, CHR 0x85, CHR 0xA0])"

definition py_isdigit :: "char \<Rightarrow> bool" where
  "py_isdigit c =
     (c \<in> set ''0123456789'' \<or> c \<in> set [CHR 0xB2, CHR 0xB3, CHR 0xB9])"

definition newline :: char where
  "newline = CHR 0x0A"

text \<open>\<open>s.strip()\<close>: leading and trailing whitespace removed.\<close>

definition lstrip :: "string \<Rightarrow> string" where
  "lstrip s = dropWhile py_isspace s"

definition rstrip :: "string \<Rightarrow> string" where
  "rstrip s = rev (dropWhile py_isspace (rev s))"

definition strip :: "string \<Rightarrow> string" where
  "strip s = rstrip (lstrip s)"

text \<open>\<open>s.startswith(p)\<close>.\<close>

definition startswith :: "string \<Rightarrow> string \<Rightarrow> bool" where
  "startswith p s = (take (length p) s = p)"

text \<open>\<open>s.find(sep)\<close>: the index of the first occurrence of \<open>sep\<close>, if any.\<close>

primrec find_sub :: "string \<Rightarrow> string \<Rightarrow> nat option" where
  "find_sub sep [] = (if sep = [] then Some 0 else None)"
| "find_sub sep (c # cs) =
     (if startswith sep (c # cs) then Some 0 else map_option Suc (find_sub sep cs))"

text \<open>\<open>sep in s\<close>.\<close>

definition py_in :: "string \<Rightarrow> string \<Rightarrow> bool" where
  "py_in sep s = (find_sub sep s \<noteq> None)"

text \<open>\<open>s.split(sep, 1)\<close>: one element when \<open>sep\<close> does not occur, two otherwise.\<close>

definition py_split1 :: "string \<Rightarrow> string \<Rightarrow> string list" where
  "py_split1 sep s =
     (case find_sub sep s of
        None \<Rightarrow> [s]
      | Some k \<Rightarrow> [take k s, drop (k + length sep) s])"

text \<open>\<open>s.split("\n")\<close>: never empty; the empty string gives one empty line.\<close>

fun split_nl :: "string \<Rightarrow> string list" where
  "split_nl [] = [[]]"
| "split_nl (c # cs) =
     (if c = newline then [] # split_nl cs
      else (case split_nl cs of
              [] \<Rightarrow> [[c]]
            | l # ls \<Rightarrow> (c # l) # ls))"

text \<open>\<open>"\n".join(ls)\<close>.\<close>

fun join_nl :: "string list \<Rightarrow> string" where
  "join_nl [] = []"
| "join_nl [l] = l"
| "join_nl (l # ls) = l @ newline # join_nl ls"

text \<open>Indexing raises \<open>IndexError\<close> out of range.\<close>

datatype py_error = IndexError

definition py_index :: "'a list \<Rightarrow> nat \<Rightarrow> py_error + 'a" where
  "py_index xs i = (if i < length xs then Inr (xs ! i) else Inl IndexError)"

section \<open>Blocks\<close>

text \<open>
  A block is a dictionary \<open>{"type": t, t: {"rich_text": [...], ...}}\<close>. Every
  key the serializer reads with \<open>.get\<close> may be absent: an absent key is \<open>None\<close> in
  the records below, and the entries of a block other than \<open>"type"\<close> are an association
  list from keys to payload dictionaries. A value that is present has the type the block
  schema gives it (a string, a boolean, a list of runs, a dictionary); a missing
  \<open>"rich_text"\<close> and one that is \<open>None\<close> are both the empty list to the serializer, and
  are one case here.
\<close>

record text_obj =
  tx_content :: "string option"

record rich_text_obj =
  rt_type :: "string option"
  rt_text :: "text_obj option"

record payload =
  rich_text :: "rich_text_obj list option"
  language :: "string option"
  checked :: "bool option"

record block =
  btype :: "string option"
  entries :: "(string \<times> payload) list"

text \<open>\<open>{"type": "text", "text": {"content": c}}\<close>\<close>

definition text_run :: "string \<Rightarrow> rich_text_obj" where
  "text_run c = \<lparr>rt_type = Some ''text'', rt_text = Some \<lparr>tx_content = Some c\<rparr>\<rparr>"

text \<open>\<open>{"type": ty, ty: {"rich_text": [{"type": "text", "text": {"content": c}}]}}\<close>\<close>

definition text_block :: "string \<Rightarrow> string \<Rightarrow> block" where
  "text_block ty c =
     \<lparr>btype = Some ty,
      entries = [(ty, \<lparr>rich_text = Some [text_run c], language = None, checked = None\<rparr>)]\<rparr>"

text \<open>\<open>{"type": "code", "code": {"rich_text": [...], "language": lang}}\<close>\<close>

definition code_block :: "string \<Rightarrow> string \<Rightarrow> block" where
  "code_block c lang =
     \<lparr>btype = Some ''code'',
      entries = [(''code'', \<lparr>rich_text = Some [text_run c], language = Some lang,
                             checked = None\<rparr>)]\<rparr>"

section \<open>The parser: \<open>parse_markdown_to_blocks\<close>\<close>

text \<open>
  The title scan: the \<open>for\<close> loop over \<open>enumerate(lines)\<close> that stops at the first
  line starting with \<open>"# "\<close>. It returns \<open>title\<close> (\<open>None\<close> when no line matched) and
  \<open>content_start_idx\<close>, which stays 0 when no line matched.
\<close>

fun title_scan :: "string list \<Rightarrow> nat \<Rightarrow> string option \<times> nat" where
  "title_scan [] i = (None, 0)"
| "title_scan (line # rest) i =
     (if startswith ''# '' line then (Some (strip (drop 2 line)), i + 1)
      else title_scan rest (i + 1))"

text \<open>
  The inner \<open>while\<close> loop of a code fence: from index \<open>i\<close> it appends lines to
  \<open>code_lines\<close> until a line starts with three backticks or the lines end, and returns
  the index where it stopped.
\<close>

function code_loop :: "string list \<Rightarrow> nat \<Rightarrow> string list \<Rightarrow> nat \<times> string list" where
  "code_loop lines i code_lines =
     (if i < length lines \<and> \<not> startswith ''```'' (lines ! i)
      then code_loop lines (i + 1) (code_lines @ [lines ! i])
      else (i, code_lines))"
  by pat_completeness auto
termination
  by (relation "measure (\<lambda>(lines, i, code_lines). length lines - i)") auto

declare code_loop.simps [simp del]

text \<open>
  The test of the numbered-list branch,
  \<open>line.strip() and line[0].isdigit() and ". " in line\<close>, with Python's short-circuit
  evaluation: \<open>line[0]\<close> is read only when \<open>line.strip()\<close> is not empty.
\<close>

definition numbered_test :: "string \<Rightarrow> py_error + bool" where
  "numbered_test line =
     (if strip line \<noteq> [] then
        (case py_index line 0 of
           Inl e \<Rightarrow> Inl e
         | Inr c \<Rightarrow> Inr (py_isdigit c \<and> py_in ''. '' line))
      else Inr False)"

text \<open>
  The main \<open>while\<close> loop over the body lines, from index \<open>i\<close>, appending to
  \<open>blocks\<close>. The branches are those of the source, in its order.
\<close>

function body_loop :: "string list \<Rightarrow> nat \<Rightarrow> block list \<Rightarrow> py_error + block list" where
  "body_loop lines i blocks =
     (if i < length lines then
        (let line = lines ! i in
         if startswith ''## '' line then
           body_loop lines (i + 1) (blocks @ [text_block ''heading_2'' (strip (drop 3 line))])
         else if startswith ''### '' line then
           body_loop lines (i + 1) (blocks @ [text_block ''heading_3'' (strip (drop 4 line))])
         else if startswith ''- '' line then
           body_loop lines (i + 1)
             (blocks @ [text_block ''bulleted_list_item'' (strip (drop 2 line))])
         else
           (case numbered_test line of
              Inl e \<Rightarrow> Inl e
            | Inr True \<Rightarrow>
                (case py_index (py_split1 ''. '' line) 1 of
                   Inl e \<Rightarrow> Inl e
                 | Inr content \<Rightarrow>
                     body_loop lines (i + 1)
                       (blocks @ [text_block ''numbered_list_item'' (strip content)]))
            | Inr False \<Rightarrow>
                if startswith ''```'' line then
                  (let language = strip (drop 3 line);
                       (j, code_lines) = code_loop lines (i + 1) []
                   in body_loop lines (j + 1)
                        (blocks @ [code_block (join_nl code_lines)
                                     (if language \<noteq> [] then language else ''plain text'')]))
                else if strip line \<noteq> [] then
                  body_loop lines (i + 1) (blocks @ [text_block ''paragraph'' (strip line)])
                else body_loop lines (i + 1) blocks))
      else Inr blocks)"
  by pat_completeness auto
termination
proof -
  have ge: "i \<le> fst (code_loop lines i code_lines)" for lines i code_lines
  proof (induction lines i code_lines rule: code_loop.induct)
    case (1 lines i code_lines)
    show ?case
    proof (cases "i < length lines \<and> \<not> startswith ''```'' (lines ! i)")
      case True
      with "1" have "i + 1 \<le> fst (code_loop lines (i + 1) (code_lines @ [lines ! i]))"
        by simp
      with True show ?thesis
        by (subst code_loop.simps) simp
    next
      case False
      then show ?thesis
        by (subst code_loop.simps) auto
    qed
  qed
  then have ge': "(j, cl) = code_loop lines i code_lines \<Longrightarrow> i \<le> j" for j cl lines i code_lines
    by (metis fst_conv)
  show ?thesis
    by (relation "measure (\<lambda>(lines, i, blocks). length lines - i)")
       (auto dest!: ge')
qed

declare body_loop.simps [simp del]

text \<open>
  The same loop as a function of the lines that remain, \<open>lines[i:]\<close>: one equation
  for the line at the front, with the branches in the same order. The fence branch takes
  the lines up to the closing fence and goes on after it.
\<close>

function parse_rest :: "string list \<Rightarrow> block list" where
  "parse_rest [] = []"
| "parse_rest (line # rest) =
     (if startswith ''## '' line then
        text_block ''heading_2'' (strip (drop 3 line)) # parse_rest rest
      else if startswith ''### '' line then
        text_block ''heading_3'' (strip (drop 4 line)) # parse_rest rest
      else if startswith ''- '' line then
        text_block ''bulleted_list_item'' (strip (drop 2 line)) # parse_rest rest
      else if strip line \<noteq> [] \<and> py_isdigit (hd line) \<and> py_in ''. '' line then
        text_block ''numbered_list_item'' (strip (py_split1 ''. '' line ! 1)) # parse_rest rest
      else if startswith ''```'' line then
        code_block (join_nl (takeWhile (\<lambda>l. \<not> startswith ''```'' l) rest))
          (if strip (drop 3 line) \<noteq> [] then strip (drop 3 line) else ''plain text'')
        # parse_rest (drop 1 (dropWhile (\<lambda>l. \<not> startswith ''```'' l) rest))
      else if strip line \<noteq> [] then
        text_block ''paragraph'' (strip line) # parse_rest rest
      else parse_rest rest)"
  by pat_completeness auto
termination
  by (relation "measure length")
     (auto simp: less_Suc_eq_le intro: order_trans [OF diff_le_self length_dropWhile_le])

declare parse_rest.simps [simp del]

text \<open>The whole function: it returns \<open>(blocks, title)\<close>.\<close>

definition parse_markdown_to_blocks :: "string \<Rightarrow> py_error + (block list \<times> string)" where
  "parse_markdown_to_blocks md =
     (let lines = split_nl (strip md);
          (title, content_start_idx) = title_scan lines 0;
          title = (case title of None \<Rightarrow> [] | Some t \<Rightarrow> t)
      in case body_loop lines content_start_idx [] of
           Inl e \<Rightarrow> Inl e
         | Inr blocks \<Rightarrow> Inr (blocks, title))"

section \<open>The serializer: \<open>convert_blocks_to_markdown\<close>\<close>

text \<open>\<open>block.get(key, {})\<close>, \<open>d.get("rich_text", [])\<close>, \<open>d.get("language", "")\<close> and
  \<open>d.get("checked", False)\<close>: the value of the key, or the default when it is absent.\<close>

definition get_payload :: "block \<Rightarrow> string \<Rightarrow> payload" where
  "get_payload block key =
     (case map_of (entries block) key of
        None \<Rightarrow> \<lparr>rich_text = None, language = None, checked = None\<rparr>
      | Some d \<Rightarrow> d)"

definition get_rich_text :: "payload \<Rightarrow> rich_text_obj list" where
  "get_rich_text d = (case rich_text d of None \<Rightarrow> [] | Some r \<Rightarrow> r)"

definition get_language :: "payload \<Rightarrow> string" where
  "get_language d = (case language d of None \<Rightarrow> [] | Some l \<Rightarrow> l)"

definition get_checked :: "payload \<Rightarrow> bool" where
  "get_checked d = (case checked d of None \<Rightarrow> False | Some b \<Rightarrow> b)"

text \<open>\<open>rt.get("text", {}).get("content", "")\<close>\<close>

definition get_text_content :: "rich_text_obj \<Rightarrow> string" where
  "get_text_content rt =
     (case rt_text rt of
        None \<Rightarrow> []
      | Some t \<Rightarrow> (case tx_content t of None \<Rightarrow> [] | Some c \<Rightarrow> c))"

text \<open>\<open>_extract_text_content\<close>: the contents of the runs that have a \<open>"text"\<close> key,
  concatenated.\<close>

definition extract_text_content :: "rich_text_obj list \<Rightarrow> string" where
  "extract_text_content rich_text_list =
     (if rich_text_list = [] then []
      else concat (map get_text_content (filter (\<lambda>rt. rt_text rt \<noteq> None) rich_text_list)))"

text \<open>The body of the \<open>for\<close> loop: the lines one block appends to \<open>md_lines\<close>. A block
  whose type is none of those tested leaves \<open>md_lines\<close> as it is.\<close>

definition convert_block :: "string list \<Rightarrow> block \<Rightarrow> string list" where
  "convert_block md_lines block =
     (let block_type = btype block in
      if block_type = Some ''paragraph'' then
        (let text_content = extract_text_content (get_rich_text (get_payload block ''paragraph''))
         in md_lines @ [text_content] @ [[]])
      else if block_type = Some ''heading_1'' then
        (let text_content = extract_text_content (get_rich_text (get_payload block ''heading_1''))
         in md_lines @ [''# '' @ text_content] @ [[]])
      else if block_type = Some ''heading_2'' then
        (let text_content = extract_text_content (get_rich_text (get_payload block ''heading_2''))
         in md_lines @ [''## '' @ text_content] @ [[]])
      else if block_type = Some ''heading_3'' then
        (let text_content = extract_text_content (get_rich_text (get_payload block ''heading_3''))
         in md_lines @ [''### '' @ text_content] @ [[]])
      else if block_type = Some ''bulleted_list_item'' then
        (let text_content =
               extract_text_content (get_rich_text (get_payload block ''bulleted_list_item''))
         in md_lines @ [''- '' @ text_content])
      else if block_type = Some ''numbered_list_item'' then
        (let text_content =
               extract_text_content (get_rich_text (get_payload block ''numbered_list_item''))
         in md_lines @ [''1. '' @ text_content])
      else if block_type = Some ''code'' then
        (let code_block = get_payload block ''code'';
             language = get_language code_block;
             text_content = extract_text_content (get_rich_text code_block)
         in md_lines @ [''```'' @ language] @ [text_content] @ [''```''] @ [[]])
      else if block_type = Some ''to_do'' then
        (let todo_item = get_payload block ''to_do'';
             checked = get_checked todo_item;
             text_content = extract_text_content (get_rich_text todo_item);
             checkbox = (if checked then ''[x]'' else ''[ ]'')
         in md_lines @ [''- '' @ checkbox @ '' '' @ text_content])
      else if block_type = Some ''quote'' then
        (let text_content = extract_text_content (get_rich_text (get_payload block ''quote''))
         in md_lines @ [''> '' @ text_content] @ [[]])
      else md_lines)"

text \<open>The lines before the loop. \<open>title\<close> is \<open>None\<close> or a string; \<open>if title\<close>
  holds of a string that is not empty.\<close>

definition title_lines :: "string option \<Rightarrow> string list" where
  "title_lines title =
     (case title of
        None \<Rightarrow> []
      | Some t \<Rightarrow> if t \<noteq> [] then [] @ [''# '' @ t] @ [[]] else [])"

text \<open>The whole function.\<close>

definition convert_blocks_to_markdown :: "block list \<Rightarrow> string option \<Rightarrow> string" where
  "convert_blocks_to_markdown blocks title =
     (let md_lines = title_lines title;
          md_lines = foldl convert_block md_lines blocks
      in join_nl md_lines)"

section \<open>The serializer on blocks that hold null values\<close>

text \<open>
  The records above give every value that is present its schema type. The source takes
  any dictionaries, and a dictionary decoded from JSON can hold \<open>None\<close> at a key. The
  records below read the same keys with three cases each: the key is absent, it holds
  \<open>None\<close>, or it holds a value of its schema type; an element of a \<open>"rich_text"\<close> list
  is a dictionary or \<open>None\<close>. On these blocks the source can raise: \<open>.get\<close> on \<open>None\<close>
  is an \<open>AttributeError\<close>, and \<open>"text" in None\<close> and the join of a list that holds
  \<open>None\<close> are each a \<open>TypeError\<close>.
\<close>

datatype 'a field = Absent | PyNone | Present 'a

datatype convert_error = AttributeError | TypeError

record raw_text_obj =
  raw_content :: "string field"

record raw_rich_text_obj =
  raw_text :: "raw_text_obj field"

record raw_payload =
  raw_rich_text :: "raw_rich_text_obj option list field"
  raw_language :: "string field"
  raw_checked :: "bool field"

record raw_block =
  raw_type :: "string field"
  raw_entries :: "(string \<times> raw_payload option) list"

text \<open>\<open>d.get(key, dflt)\<close> on a dictionary \<open>d\<close>; the result \<open>None\<close> is Python's
  \<open>None\<close>.\<close>

definition dict_get :: "'a field \<Rightarrow> 'a \<Rightarrow> 'a option" where
  "dict_get f dflt =
     (case f of Absent \<Rightarrow> Some dflt | PyNone \<Rightarrow> None | Present v \<Rightarrow> Some v)"

text \<open>\<open>block.get(key, {})\<close>\<close>

definition raw_get_payload :: "raw_block \<Rightarrow> string \<Rightarrow> raw_payload option" where
  "raw_get_payload block key =
     (case map_of (raw_entries block) key of
        None \<Rightarrow> Some \<lparr>raw_rich_text = Absent, raw_language = Absent, raw_checked = Absent\<rparr>
      | Some v \<Rightarrow> v)"

text \<open>
  The list comprehension of \<open>_extract_text_content\<close>, element by element: the test
  \<open>"text" in rt\<close>, then \<open>rt.get("text", {}).get("content", "")\<close>. The first element
  that raises ends it.
\<close>

fun raw_collect :: "raw_rich_text_obj option list \<Rightarrow> convert_error + string option list" where
  "raw_collect [] = Inr []"
| "raw_collect (rt # rest) =
     (case rt of
        None \<Rightarrow> Inl TypeError
      | Some d \<Rightarrow>
          (case raw_text d of
             Absent \<Rightarrow> raw_collect rest
           | PyNone \<Rightarrow> Inl AttributeError
           | Present t \<Rightarrow>
               (case raw_collect rest of
                  Inl e \<Rightarrow> Inl e
                | Inr cs \<Rightarrow> Inr (dict_get (raw_content t) [] # cs))))"

text \<open>\<open>"".join(xs)\<close>: every element has to be a string.\<close>

fun py_join :: "string option list \<Rightarrow> convert_error + string" where
  "py_join [] = Inr []"
| "py_join (None # cs) = Inl TypeError"
| "py_join (Some c # cs) = (case py_join cs of Inl e \<Rightarrow> Inl e | Inr s \<Rightarrow> Inr (c @ s))"

text \<open>\<open>_extract_text_content\<close>; its argument is a list or \<open>None\<close>.\<close>

definition raw_extract_text_content ::
  "raw_rich_text_obj option list option \<Rightarrow> convert_error + string" where
  "raw_extract_text_content rich_text_list =
     (case rich_text_list of
        None \<Rightarrow> Inr []
      | Some rs \<Rightarrow>
          if rs = [] then Inr []
          else (case raw_collect rs of Inl e \<Rightarrow> Inl e | Inr cs \<Rightarrow> py_join cs))"

text \<open>\<open>self._extract_text_content(d.get("rich_text", []))\<close> for \<open>d\<close> the value of
  \<open>block.get(key, {})\<close>, which raises when \<open>d\<close> is \<open>None\<close>.\<close>

definition raw_payload_text :: "raw_payload option \<Rightarrow> convert_error + string" where
  "raw_payload_text d =
     (case d of
        None \<Rightarrow> Inl AttributeError
      | Some p \<Rightarrow> raw_extract_text_content (dict_get (raw_rich_text p) []))"

text \<open>The body of the \<open>for\<close> loop on such a block. In the \<open>code\<close> branch the
  f-string formats a language that is \<open>None\<close> as the text \<open>None\<close>; in the \<open>to_do\<close>
  branch a \<open>checked\<close> that is \<open>None\<close> counts as false.\<close>

definition raw_convert_block :: "string list \<Rightarrow> raw_block \<Rightarrow> convert_error + string list" where
  "raw_convert_block md_lines block =
     (let block_type = (case raw_type block of Present ty \<Rightarrow> Some ty | _ \<Rightarrow> None) in
      if block_type = Some ''paragraph'' then
        (case raw_payload_text (raw_get_payload block ''paragraph'') of
           Inl e \<Rightarrow> Inl e
         | Inr text_content \<Rightarrow> Inr (md_lines @ [text_content] @ [[]]))
      else if block_type = Some ''heading_1'' then
        (case raw_payload_text (raw_get_payload block ''heading_1'') of
           Inl e \<Rightarrow> Inl e
         | Inr text_content \<Rightarrow> Inr (md_lines @ [''# '' @ text_content] @ [[]]))
      else if block_type = Some ''heading_2'' then
        (case raw_payload_text (raw_get_payload block ''heading_2'') of
           Inl e \<Rightarrow> Inl e
         | Inr text_content \<Rightarrow> Inr (md_lines @ [''## '' @ text_content] @ [[]]))
      else if block_type = Some ''heading_3'' then
        (case raw_payload_text (raw_get_payload block ''heading_3'') of
           Inl e \<Rightarrow> Inl e
         | Inr text_content \<Rightarrow> Inr (md_lines @ [''### '' @ text_content] @ [[]]))
      else if block_type = Some ''bulleted_list_item'' then
        (case raw_payload_text (raw_get_payload block ''bulleted_list_item'') of
           Inl e \<Rightarrow> Inl e
         | Inr text_content \<Rightarrow> Inr (md_lines @ [''- '' @ text_content]))
      else if block_type = Some ''numbered_list_item'' then
        (case raw_payload_text (raw_get_payload block ''numbered_list_item'') of
           Inl e \<Rightarrow> Inl e
         | Inr text_content \<Rightarrow> Inr (md_lines @ [''1. '' @ text_content]))
      else if block_type = Some ''code'' then
        (case raw_get_payload block ''code'' of
           None \<Rightarrow> Inl AttributeError
         | Some code_dict \<Rightarrow>
             (let language = dict_get (raw_language code_dict) [] in
              case raw_extract_text_content (dict_get (raw_rich_text code_dict) []) of
                Inl e \<Rightarrow> Inl e
              | Inr text_content \<Rightarrow>
                  Inr (md_lines
                       @ [''```'' @ (case language of None \<Rightarrow> ''None'' | Some l \<Rightarrow> l)]
                       @ [text_content] @ [''```''] @ [[]])))
      else if block_type = Some ''to_do'' then
        (case raw_get_payload block ''to_do'' of
           None \<Rightarrow> Inl AttributeError
         | Some todo_item \<Rightarrow>
             (let checked = dict_get (raw_checked todo_item) False in
              case raw_extract_text_content (dict_get (raw_rich_text todo_item) []) of
                Inl e \<Rightarrow> Inl e
              | Inr text_content \<Rightarrow>
                  (let checkbox = (if checked = Some True then ''[x]'' else ''[ ]'')
                   in Inr (md_lines @ [''- '' @ checkbox @ '' '' @ text_content]))))
      else if block_type = Some ''quote'' then
        (case raw_payload_text (raw_get_payload block ''quote'') of
           Inl e \<Rightarrow> Inl e
         | Inr text_content \<Rightarrow> Inr (md_lines @ [''> '' @ text_content] @ [[]]))
      else Inr md_lines)"

text \<open>The \<open>for\<close> loop, which ends at the first block that raises, and the whole
  function.\<close>

fun raw_convert_loop :: "string list \<Rightarrow> raw_block list \<Rightarrow> convert_error + string list" where
  "raw_convert_loop md_lines [] = Inr md_lines"
| "raw_convert_loop md_lines (block # blocks) =
     (case raw_convert_block md_lines block of
        Inl e \<Rightarrow> Inl e
      | Inr md_lines' \<Rightarrow> raw_convert_loop md_lines' blocks)"

definition raw_convert_blocks_to_markdown ::
  "raw_block list \<Rightarrow> string option \<Rightarrow> convert_error + string" where
  "raw_convert_blocks_to_markdown blocks title =
     (case raw_convert_loop (title_lines title) blocks of
        Inl e \<Rightarrow> Inl e
      | Inr md_lines \<Rightarrow> Inr (join_nl md_lines))"

text \<open>A block whose values all have their schema types: no entry, no run, and no
  \<open>"text"\<close> or \<open>"content"\<close> of a run is \<open>None\<close>.\<close>

definition typed_run :: "raw_rich_text_obj option \<Rightarrow> bool" where
  "typed_run rt =
     (case rt of
        None \<Rightarrow> False
      | Some d \<Rightarrow>
          (case raw_text d of
             Absent \<Rightarrow> True
           | PyNone \<Rightarrow> False
           | Present t \<Rightarrow> raw_content t \<noteq> PyNone))"

definition typed_payload :: "raw_payload option \<Rightarrow> bool" where
  "typed_payload d =
     (case d of
        None \<Rightarrow> False
      | Some p \<Rightarrow>
          (case raw_rich_text p of
             Present rs \<Rightarrow> list_all typed_run rs
           | _ \<Rightarrow> True))"

definition schema_typed :: "raw_block \<Rightarrow> bool" where
  "schema_typed block = list_all (\<lambda>(key, d). typed_payload d) (raw_entries block)"

text \<open>A block of the first model as a block of this one: an absent key stays absent and
  every value present is kept.\<close>

definition field_of :: "'a option \<Rightarrow> 'a field" where
  "field_of v = (case v of None \<Rightarrow> Absent | Some x \<Rightarrow> Present x)"

definition raw_of_run :: "rich_text_obj \<Rightarrow> raw_rich_text_obj option" where
  "raw_of_run rt =
     Some \<lparr>raw_text =
             field_of (map_option (\<lambda>t. \<lparr>raw_content = field_of (tx_content t)\<rparr>) (rt_text rt))\<rparr>"

definition raw_of_payload :: "payload \<Rightarrow> raw_payload option" where
  "raw_of_payload p =
     Some \<lparr>raw_rich_text = field_of (map_option (map raw_of_run) (rich_text p)),
           raw_language = field_of (language p),
           raw_checked = field_of (checked p)\<rparr>"

definition raw_of_block :: "block \<Rightarrow> raw_block" where
  "raw_of_block b =
     \<lparr>raw_type = field_of (btype b),
      raw_entries = map (\<lambda>(key, p). (key, raw_of_payload p)) (entries b)\<rparr>"

section \<open>Documents that survive the round trip\<close>

text \<open>The joined text of a block: that of the entry under the block's own type.\<close>

definition block_text :: "block \<Rightarrow> string" where
  "block_text b =
     (case btype b of
        None \<Rightarrow> []
      | Some ty \<Rightarrow> extract_text_content (get_rich_text (get_payload b ty)))"

text \<open>A text that is one line as it stands: not empty, without a newline, and without
  whitespace at either end.\<close>

definition trimmed_line :: "string \<Rightarrow> bool" where
  "trimmed_line c =
     (c \<noteq> [] \<and> newline \<notin> set c \<and> \<not> py_isspace (hd c) \<and> \<not> py_isspace (last c))"

definition canonical_title :: "string \<Rightarrow> bool" where
  "canonical_title title = (title = [] \<or> trimmed_line title)"

text \<open>
  A block of the canonical subset, in a document with the given title: it carries exactly
  one text run, and its type is one of the six the parser produces. The text of a heading
  or list item is a trimmed line. That of a paragraph is a trimmed line that the parser
  would not read as a heading, a list item or a fence. The language of a code block has
  no newline and no line of its text starts with three backticks. When the document has
  no title, no line of a paragraph or of a code block starts with \<open>"# "\<close>.
\<close>

definition canonical_block :: "string \<Rightarrow> block \<Rightarrow> bool" where
  "canonical_block title b =
     (case btype b of
        None \<Rightarrow> False
      | Some ty \<Rightarrow>
          get_rich_text (get_payload b ty) = [text_run (block_text b)] \<and>
          (let c = block_text b in
           if ty \<in> set [''heading_2'', ''heading_3'', ''bulleted_list_item'',
                          ''numbered_list_item''] then trimmed_line c
           else if ty = ''paragraph'' then
             trimmed_line c \<and> \<not> startswith ''## '' c \<and> \<not> startswith ''### '' c
             \<and> \<not> startswith ''- '' c \<and> \<not> (py_isdigit (hd c) \<and> py_in ''. '' c)
             \<and> \<not> startswith ''```'' c \<and> (title = [] \<longrightarrow> \<not> startswith ''# '' c)
           else if ty = ''code'' then
             newline \<notin> set (get_language (get_payload b ''code''))
             \<and> (\<forall>l\<in>set (split_nl c).
                   \<not> startswith ''```'' l \<and> (title = [] \<longrightarrow> \<not> startswith ''# '' l))
           else False))"

text \<open>The ends of a list of lines whose join is unchanged by \<open>strip\<close>: the first line
  starts, and the last line ends, with a character that is not whitespace.\<close>

definition solid_ends :: "string list \<Rightarrow> bool" where
  "solid_ends ls =
     (ls \<noteq> [] \<and> hd ls \<noteq> [] \<and> \<not> py_isspace (hd (hd ls))
      \<and> last ls \<noteq> [] \<and> \<not> py_isspace (last (last ls)))"

section \<open>Strings: stripping and prefixes\<close>

lemma startswith_iff: "startswith p s \<longleftrightarrow> (\<exists>r. s = p @ r)"
  unfolding startswith_def
  by (metis append_eq_conv_conj append_take_drop_id)

lemma py_isspace_newline: "py_isspace newline"
  by (simp add: py_isspace_def newline_def)

lemma lstrip_ws_append: "\<forall>c\<in>set w. py_isspace c \<Longrightarrow> lstrip (w @ s) = lstrip s"
  by (simp add: lstrip_def dropWhile_append2)

lemma rstrip_append_ws: "\<forall>c\<in>set w. py_isspace c \<Longrightarrow> rstrip (s @ w) = rstrip s"
proof -
  assume "\<forall>c\<in>set w. py_isspace c"
  then have "dropWhile py_isspace (rev w @ rev s) = dropWhile py_isspace (rev s)"
    by (intro dropWhile_append2) simp
  then show ?thesis by (simp add: rstrip_def)
qed

lemma lstrip_append_ws: "\<forall>c\<in>set w. py_isspace c \<Longrightarrow> rstrip (lstrip (s @ w)) = rstrip (lstrip s)"
proof (cases "\<forall>c\<in>set s. py_isspace c")
  case True
  assume "\<forall>c\<in>set w. py_isspace c"
  with True have "lstrip (s @ w) = []" "lstrip s = []"
    by (auto simp: lstrip_def)
  then show ?thesis by simp
next
  case False
  assume w: "\<forall>c\<in>set w. py_isspace c"
  from False have "lstrip (s @ w) = lstrip s @ w"
    by (auto simp: lstrip_def)
  with w show ?thesis by (simp add: rstrip_append_ws)
qed

lemma strip_ws_append:
  "\<forall>c\<in>set w1. py_isspace c \<Longrightarrow> \<forall>c\<in>set w2. py_isspace c \<Longrightarrow> strip (w1 @ s @ w2) = strip s"
  by (simp add: strip_def lstrip_ws_append lstrip_append_ws)

lemma strip_id: "s \<noteq> [] \<Longrightarrow> \<not> py_isspace (hd s) \<Longrightarrow> \<not> py_isspace (last s) \<Longrightarrow> strip s = s"
proof -
  assume ne: "s \<noteq> []" and h: "\<not> py_isspace (hd s)" and l: "\<not> py_isspace (last s)"
  from ne h have "lstrip s = s"
    by (cases s) (simp_all add: lstrip_def)
  moreover from ne l have "rstrip s = s"
    by (cases s rule: rev_cases) (simp_all add: rstrip_def)
  ultimately show ?thesis by (simp add: strip_def)
qed

lemma strip_Nil [simp]: "strip [] = []"
  by (simp add: strip_def lstrip_def rstrip_def)


lemma code_loop_eq:
  "code_loop lines i acc =
     (i + length (takeWhile (\<lambda>l. \<not> startswith ''```'' l) (drop i lines)),
      acc @ takeWhile (\<lambda>l. \<not> startswith ''```'' l) (drop i lines))"
proof (induction lines i acc rule: code_loop.induct)
  case (1 lines i code_lines)
  show ?case
  proof (cases "i < length lines")
    case True
    then have d: "drop i lines = lines ! i # drop (Suc i) lines"
      by (simp add: Cons_nth_drop_Suc)
    with True "1" show ?thesis
      by (subst code_loop.simps) simp
  next
    case False
    then show ?thesis
      by (subst code_loop.simps) simp
  qed
qed

lemma numbered_test_eq:
  "numbered_test line = Inr (strip line \<noteq> [] \<and> py_isdigit (hd line) \<and> py_in ''. '' line)"
  by (cases line) (simp_all add: numbered_test_def py_index_def)

lemma py_split1_index:
  "py_in sep line \<Longrightarrow> py_index (py_split1 sep line) (Suc 0) = Inr (py_split1 sep line ! 1)"
  by (auto simp: py_in_def py_split1_def py_index_def)


lemma body_loop_eq: "body_loop lines i acc = Inr (acc @ parse_rest (drop i lines))"
proof (induction "length lines - i" arbitrary: i acc rule: less_induct)
  case less
  show ?case
  proof (cases "i < length lines")
    case False
    then show ?thesis
      by (subst body_loop.simps) (simp add: parse_rest.simps)
  next
    case True
    then have d: "drop i lines = lines ! i # drop (Suc i) lines"
      by (simp add: Cons_nth_drop_Suc)
    have step: "body_loop lines (Suc (i + k)) acc' = Inr (acc' @ parse_rest (drop (Suc (i + k)) lines))"
      for k acc'
      using True by (intro less) arith
    have dw: "drop (Suc (Suc (i + length (takeWhile P (drop (Suc i) lines))))) lines =
               drop 1 (dropWhile P (drop (Suc i) lines))" for P
      by (simp add: dropWhile_eq_drop add.commute)
    show ?thesis
      using True step [of 0] step [of "Suc (length (takeWhile (\<lambda>l. \<not> startswith ''```'' l) (drop (Suc i) lines)))"]
      apply (subst body_loop.simps)
      apply (simp add: d parse_rest.simps numbered_test_eq py_split1_index code_loop_eq Let_def dw bool.case_eq_if del: drop_Suc_Cons)
      done
  qed
qed

lemma rstrip_Nil_iff: "rstrip s = [] \<longleftrightarrow> (\<forall>c\<in>set s. py_isspace c)"
  by (simp add: rstrip_def dropWhile_eq_Nil_conv)

lemma lstrip_Nil_iff: "lstrip s = [] \<longleftrightarrow> (\<forall>c\<in>set s. py_isspace c)"
  by (simp add: lstrip_def dropWhile_eq_Nil_conv)

lemma strip_Nil_iff: "strip s = [] \<longleftrightarrow> (\<forall>c\<in>set s. py_isspace c)"
proof
  assume "strip s = []"
  then have all: "\<forall>c\<in>set (lstrip s). py_isspace c"
    by (simp add: strip_def rstrip_Nil_iff)
  have "lstrip s = []"
  proof (rule ccontr)
    assume ne: "lstrip s \<noteq> []"
    then have "\<not> py_isspace (hd (lstrip s))"
      unfolding lstrip_def by (rule hd_dropWhile)
    with ne all show False by (metis hd_in_set)
  qed
  then show "\<forall>c\<in>set s. py_isspace c"
    by (simp add: lstrip_Nil_iff)
next
  assume "\<forall>c\<in>set s. py_isspace c"
  then have "lstrip s = []" by (simp add: lstrip_Nil_iff)
  then show "strip s = []" by (simp add: strip_def rstrip_def)
qed

lemma blank_not_startswith:
  "strip line = [] \<Longrightarrow> p \<noteq> [] \<Longrightarrow> \<not> py_isspace (hd p) \<Longrightarrow> \<not> startswith p line"
  by (cases p) (auto simp: strip_Nil_iff startswith_iff)

lemma parse_rest_blank: "strip line = [] \<Longrightarrow> parse_rest (line # rest) = parse_rest rest"
  by (simp add: parse_rest.simps blank_not_startswith py_isspace_def)

lemma parse_rest_types:
  "b \<in> set (parse_rest ls) \<Longrightarrow>
   btype b \<in> Some ` {''heading_2'', ''heading_3'', ''bulleted_list_item'',
                      ''numbered_list_item'', ''code'', ''paragraph''}"
proof (induction ls rule: parse_rest.induct)
  case 1
  then show ?case by (simp add: parse_rest.simps)
next
  case (2 line rest)
  from "2.prems" show ?case
    by (subst (asm) parse_rest.simps)
      (auto simp: text_block_def code_block_def split: if_splits dest: "2.IH")
qed

lemma parse_eq:
  "parse_markdown_to_blocks md =
     Inr (parse_rest (drop (snd (title_scan (split_nl (strip md)) 0)) (split_nl (strip md))),
          case fst (title_scan (split_nl (strip md)) 0) of None \<Rightarrow> [] | Some t \<Rightarrow> t)"
  by (simp add: parse_markdown_to_blocks_def Let_def body_loop_eq split: prod.splits)


section \<open>The parser is total\<close>

lemma parse_empty: "parse_markdown_to_blocks [] = Inr ([], [])"
  by code_simp

lemma parse_blank_lines: "parse_markdown_to_blocks [newline, newline, newline] = Inr ([], [])"
  by code_simp

text \<open>
  Claim C6. For every input string \<open>parse_markdown_to_blocks\<close> returns a pair of blocks
  and title and raises nothing: the test of the numbered branch reads \<open>line[0]\<close> only of
  a line that is not blank, the split after \<open>". "\<close> is indexed at 1 only when the
  test held, and the loop returns from every index. A line that is empty after stripping
  adds no block. The empty input, and the input of three newlines, give the title \<open>""\<close>
  and no block.
\<close>

theorem parser_total:
  "(\<exists>blocks title. parse_markdown_to_blocks md = Inr (blocks, title))
   \<and> (\<exists>b. numbered_test line = Inr b)
   \<and> (numbered_test line = Inr True \<longrightarrow> (\<exists>c. py_index (py_split1 ''. '' line) 1 = Inr c))
   \<and> (\<exists>blocks'. body_loop lines i blocks = Inr blocks')
   \<and> (i < length lines \<and> strip (lines ! i) = [] \<longrightarrow>
        body_loop lines i blocks = body_loop lines (i + 1) blocks)
   \<and> parse_markdown_to_blocks [] = Inr ([], [])
   \<and> parse_markdown_to_blocks [newline, newline, newline] = Inr ([], [])"
proof -
  have "\<exists>blocks title. parse_markdown_to_blocks md = Inr (blocks, title)"
    by (simp add: parse_eq)
  moreover have "\<exists>b. numbered_test line = Inr b"
    by (simp add: numbered_test_eq)
  moreover have "numbered_test line = Inr True \<longrightarrow>
      (\<exists>c. py_index (py_split1 ''. '' line) 1 = Inr c)"
    using py_split1_index [of "''. ''" line] by (simp add: numbered_test_eq)
  moreover have "\<exists>blocks'. body_loop lines i blocks = Inr blocks'"
    by (simp add: body_loop_eq)
  moreover have "i < length lines \<and> strip (lines ! i) = [] \<longrightarrow>
      body_loop lines i blocks = body_loop lines (i + 1) blocks"
    by (simp add: body_loop_eq parse_rest_blank flip: Cons_nth_drop_Suc)
  ultimately show ?thesis
    using parse_empty parse_blank_lines by blast
qed

theorem parser_total_witness:
  "body_loop ['' '', ''x''] 0 [] = body_loop ['' '', ''x''] 1 []
   \<and> (\<exists>c. py_index (py_split1 ''. '' ''1. a'') 1 = Inr c)"
proof -
  have "strip '' '' = []" by code_simp
  moreover have "numbered_test ''1. a'' = Inr True" by code_simp
  ultimately show ?thesis
    using parser_total [of "[]" "''1. a''" "['' '', ''x'']" 0 "[]"] by simp
qed

section \<open>The block types the parser produces\<close>

text \<open>
  Claim C8. Every block that \<open>parse_markdown_to_blocks\<close> returns has one of the types
  \<open>heading_2\<close>, \<open>heading_3\<close>, \<open>bulleted_list_item\<close>, \<open>numbered_list_item\<close>,
  \<open>code\<close> and \<open>paragraph\<close>; none has the type \<open>to_do\<close> or \<open>quote\<close>.
\<close>

theorem parser_block_types:
  "parse_markdown_to_blocks md = Inr (blocks, title) \<Longrightarrow> b \<in> set blocks \<Longrightarrow>
   btype b \<in> Some ` {''heading_2'', ''heading_3'', ''bulleted_list_item'',
                      ''numbered_list_item'', ''code'', ''paragraph''}
   \<and> btype b \<noteq> Some ''to_do'' \<and> btype b \<noteq> Some ''quote''"
proof -
  assume "parse_markdown_to_blocks md = Inr (blocks, title)" and "b \<in> set blocks"
  then have "b \<in> set (parse_rest (drop (snd (title_scan (split_nl (strip md)) 0))
                                   (split_nl (strip md))))"
    by (simp add: parse_eq)
  then have "btype b \<in> Some ` {''heading_2'', ''heading_3'', ''bulleted_list_item'',
                      ''numbered_list_item'', ''code'', ''paragraph''}"
    by (rule parse_rest_types)
  then show ?thesis by auto
qed

theorem parser_block_types_witness:
  "btype (text_block ''paragraph'' ''Body'') \<noteq> Some ''to_do''
   \<and> btype (text_block ''paragraph'' ''Body'') \<noteq> Some ''quote''
   \<and> parse_markdown_to_blocks ''Body'' = Inr ([text_block ''paragraph'' ''Body''], [])"
proof -
  have p: "parse_markdown_to_blocks ''Body'' = Inr ([text_block ''paragraph'' ''Body''], [])"
    by code_simp
  have m: "text_block ''paragraph'' ''Body'' \<in> set [text_block ''paragraph'' ''Body'']"
    by simp
  from parser_block_types [OF p m] p show ?thesis by simp
qed


section \<open>The serializer, block by block\<close>

lemma convert_block_append: "convert_block md_lines b = md_lines @ convert_block [] b"
  by (simp add: convert_block_def Let_def)

lemma foldl_convert_block:
  "foldl convert_block md_lines bs = md_lines @ concat (map (convert_block []) bs)"
proof (induction bs arbitrary: md_lines)
  case Nil
  then show ?case by simp
next
  case (Cons b bs)
  have "foldl convert_block md_lines (b # bs) =
      convert_block md_lines b @ concat (map (convert_block []) bs)"
    by (simp add: Cons.IH)
  also have "convert_block md_lines b = md_lines @ convert_block [] b"
    by (rule convert_block_append)
  finally show ?case by simp
qed

lemma convert_eq:
  "convert_blocks_to_markdown blocks title =
     join_nl (title_lines title @ concat (map (convert_block []) blocks))"
  by (simp add: convert_blocks_to_markdown_def foldl_convert_block)

lemma text_block_text:
  "extract_text_content (get_rich_text (get_payload (text_block ty c) ty)) = c"
  by (simp add: text_block_def get_payload_def get_rich_text_def extract_text_content_def
      text_run_def get_text_content_def)

subsection \<open>Blocks that hold null values\<close>

lemma raw_convert_loop_append:
  "raw_convert_loop md_lines (bs1 @ bs2) =
     (case raw_convert_loop md_lines bs1 of
        Inl e \<Rightarrow> Inl e
      | Inr md_lines' \<Rightarrow> raw_convert_loop md_lines' bs2)"
  by (induction bs1 arbitrary: md_lines) (auto split: sum.splits)

lemma py_join_Some: "py_join (map Some cs) = Inr (concat cs)"
  by (induction cs) simp_all

lemma raw_collect_typed:
  "list_all typed_run rs \<Longrightarrow> \<exists>cs. raw_collect rs = Inr (map Some cs)"
proof (induction rs)
  case Nil
  then show ?case by simp
next
  case (Cons rt rs)
  then obtain cs where cs: "raw_collect rs = Inr (map Some cs)"
    by auto
  from Cons.prems obtain d where d: "rt = Some d" "raw_text d \<noteq> PyNone"
    by (auto simp: typed_run_def split: option.splits field.splits)
  show ?case
  proof (cases "raw_text d")
    case Absent
    with d cs show ?thesis by simp
  next
    case PyNone
    with d show ?thesis by simp
  next
    case (Present t)
    with Cons.prems d have "raw_content t \<noteq> PyNone"
      by (simp add: typed_run_def)
    then obtain c where "dict_get (raw_content t) [] = Some c"
      by (cases "raw_content t") (simp_all add: dict_get_def)
    with Present d cs have "raw_collect (rt # rs) = Inr (map Some (c # cs))"
      by simp
    then show ?thesis by blast
  qed
qed

lemma raw_payload_text_typed:
  "typed_payload d \<Longrightarrow> \<exists>s. raw_payload_text d = Inr s"
proof -
  assume t: "typed_payload d"
  then obtain p where p: "d = Some p"
    by (auto simp: typed_payload_def split: option.splits)
  show ?thesis
  proof (cases "raw_rich_text p")
    case (Present rs)
    with t p have "list_all typed_run rs"
      by (simp add: typed_payload_def)
    from raw_collect_typed [OF this] obtain cs where "raw_collect rs = Inr (map Some cs)"
      by blast
    with Present p show ?thesis
      by (simp add: raw_payload_text_def dict_get_def raw_extract_text_content_def py_join_Some)
  qed (simp_all add: p raw_payload_text_def dict_get_def raw_extract_text_content_def)
qed

lemma raw_get_payload_typed: "schema_typed b \<Longrightarrow> typed_payload (raw_get_payload b key)"
proof (cases "map_of (raw_entries b) key")
  case None
  then show ?thesis
    by (simp add: raw_get_payload_def typed_payload_def)
next
  case (Some d)
  assume "schema_typed b"
  moreover from Some have "(key, d) \<in> set (raw_entries b)"
    by (rule map_of_SomeD)
  ultimately have "typed_payload d"
    by (auto simp: schema_typed_def list_all_iff)
  with Some show ?thesis
    by (simp add: raw_get_payload_def)
qed

lemma raw_convert_block_typed:
  assumes "schema_typed b"
  shows "\<exists>md_lines'. raw_convert_block md_lines b = Inr md_lines'"
proof -
  have t: "\<exists>s. raw_payload_text (raw_get_payload b key) = Inr s" for key
    using assms by (intro raw_payload_text_typed raw_get_payload_typed)
  have p: "\<exists>p s. raw_get_payload b key = Some p
      \<and> raw_extract_text_content (dict_get (raw_rich_text p) []) = Inr s" for key
    using t [of key] by (auto simp: raw_payload_text_def split: option.splits)
  show ?thesis
    using t [of "''paragraph''"] t [of "''heading_1''"] t [of "''heading_2''"]
      t [of "''heading_3''"] t [of "''bulleted_list_item''"] t [of "''numbered_list_item''"]
      t [of "''quote''"] p [of "''code''"] p [of "''to_do''"]
    by (auto simp: raw_convert_block_def Let_def)
qed

lemma raw_convert_loop_typed:
  "\<forall>b\<in>set bs. schema_typed b \<Longrightarrow> \<exists>md_lines'. raw_convert_loop md_lines bs = Inr md_lines'"
proof (induction bs arbitrary: md_lines)
  case Nil
  then show ?case by simp
next
  case (Cons b bs)
  then obtain m where "raw_convert_block md_lines b = Inr m"
    using raw_convert_block_typed [of b md_lines] by auto
  with Cons show ?case by simp
qed


lemma raw_collect_of_runs:
  "raw_collect (map raw_of_run rs) =
     Inr (map Some (map get_text_content (filter (\<lambda>rt. rt_text rt \<noteq> None) rs)))"
proof (induction rs)
  case Nil
  then show ?case by simp
next
  case (Cons rt rs)
  show ?case
  proof (cases "rt_text rt")
    case None
    with Cons show ?thesis
      by (simp add: raw_of_run_def field_of_def)
  next
    case (Some t)
    with Cons show ?thesis
      by (cases "tx_content t")
        (simp_all add: raw_of_run_def field_of_def dict_get_def get_text_content_def)
  qed
qed

lemma raw_extract_of_runs:
  "raw_extract_text_content (Some (map raw_of_run rs)) = Inr (extract_text_content rs)"
  by (simp add: raw_extract_text_content_def extract_text_content_def raw_collect_of_runs
      py_join_Some del: map_map)

lemma raw_rich_text_of_payload:
  "raw_of_payload p = Some q \<Longrightarrow>
   dict_get (raw_rich_text q) [] = Some (map raw_of_run (get_rich_text p))"
  by (cases "rich_text p") (auto simp: raw_of_payload_def field_of_def dict_get_def
      get_rich_text_def)

lemma raw_payload_text_of_payload:
  "raw_payload_text (raw_of_payload p) = Inr (extract_text_content (get_rich_text p))"
proof -
  obtain q where q: "raw_of_payload p = Some q"
    by (simp add: raw_of_payload_def)
  with raw_rich_text_of_payload [OF q] show ?thesis
    by (simp add: raw_payload_text_def raw_extract_of_runs)
qed

lemma raw_get_payload_of_block:
  "raw_get_payload (raw_of_block b) key = raw_of_payload (get_payload b key)"
  by (cases "map_of (entries b) key")
    (simp_all add: raw_get_payload_def raw_of_block_def get_payload_def map_of_map
      raw_of_payload_def field_of_def)

lemma raw_convert_block_of_block:
  "raw_convert_block md_lines (raw_of_block b) = Inr (convert_block md_lines b)"
proof -
  have ty: "(case raw_type (raw_of_block b) of Present ty \<Rightarrow> Some ty | _ \<Rightarrow> None) = btype b"
    by (cases "btype b") (simp_all add: raw_of_block_def field_of_def)
  have tx: "raw_payload_text (raw_get_payload (raw_of_block b) key) =
      Inr (extract_text_content (get_rich_text (get_payload b key)))" for key
    by (simp add: raw_get_payload_of_block raw_payload_text_of_payload)
  have pl: "\<exists>q. raw_get_payload (raw_of_block b) key = Some q
      \<and> raw_extract_text_content (dict_get (raw_rich_text q) []) =
          Inr (extract_text_content (get_rich_text (get_payload b key)))
      \<and> dict_get (raw_language q) [] = Some (get_language (get_payload b key))
      \<and> dict_get (raw_checked q) False = Some (get_checked (get_payload b key))" for key
  proof -
    obtain q where q: "raw_of_payload (get_payload b key) = Some q"
      by (simp add: raw_of_payload_def)
    have "dict_get (raw_language q) [] = Some (get_language (get_payload b key))"
      using q by (cases "language (get_payload b key)")
        (auto simp: raw_of_payload_def field_of_def dict_get_def get_language_def)
    moreover have "dict_get (raw_checked q) False = Some (get_checked (get_payload b key))"
      using q by (cases "checked (get_payload b key)")
        (auto simp: raw_of_payload_def field_of_def dict_get_def get_checked_def)
    ultimately show ?thesis
      using q raw_rich_text_of_payload [OF q]
      by (simp add: raw_get_payload_of_block raw_extract_of_runs)
  qed
  from pl [of "''code''"] pl [of "''to_do''"] show ?thesis
    unfolding raw_convert_block_def convert_block_def ty
    by (auto simp: tx Let_def)
qed

lemma raw_convert_loop_of_blocks:
  "raw_convert_loop md_lines (map raw_of_block bs) = Inr (foldl convert_block md_lines bs)"
  by (induction bs arbitrary: md_lines) (simp_all add: raw_convert_block_of_block)

lemma schema_typed_of_block: "schema_typed (raw_of_block b)"
proof -
  have "typed_run (raw_of_run rt)" for rt
    by (cases "rt_text rt"; cases "tx_content (the (rt_text rt))")
      (simp_all add: typed_run_def raw_of_run_def field_of_def)
  then have "typed_payload (raw_of_payload p)" for p
    by (cases "rich_text p")
      (simp_all add: typed_payload_def raw_of_payload_def field_of_def list_all_iff)
  then show ?thesis
    by (simp add: schema_typed_def raw_of_block_def list_all_iff split_beta)
qed

lemma raw_convert_block_skip:
  assumes "raw_type b \<notin> Present ` {''paragraph'', ''heading_1'', ''heading_2'', ''heading_3'',
       ''bulleted_list_item'', ''numbered_list_item'', ''code'', ''to_do'', ''quote''}"
  shows "raw_convert_block md_lines b = Inr md_lines"
  using assms by (cases "raw_type b") (auto simp: raw_convert_block_def)


text \<open>
  Claim C7, as stated, fails: the serializer is not total on every block list. For a
  paragraph block whose \<open>"paragraph"\<close> entry is \<open>None\<close>, \<open>block.get("paragraph", {})\<close>
  is \<open>None\<close> and the \<open>.get\<close> on it raises \<open>AttributeError\<close>.
\<close>

theorem serializer_raises_counterexample:
  "raw_convert_blocks_to_markdown
     [\<lparr>raw_type = Present ''paragraph'', raw_entries = [(''paragraph'', None)]\<rparr>] None =
     Inl AttributeError"
  by code_simp

text \<open>
  Claim C7, amended. On a block list whose values all have their schema types (keys may
  be missing, but no entry of a block, no run and no \<open>"text"\<close> or \<open>"content"\<close> of a
  run is \<open>None\<close>) the serializer raises nothing and returns a string, the one the first
  model computes. On every block list, a block whose type is none of the nine the loop
  tests, or that has none, adds no line and raises nothing whatever its entries hold, and
  the outcome is that of the list without it: the blocks before and after it are
  serialized as before.
\<close>

theorem unknown_type_skipped:
  "((\<forall>rb\<in>set rbs. schema_typed rb) \<longrightarrow>
      (\<exists>md. raw_convert_blocks_to_markdown rbs title = Inr md))
   \<and> raw_convert_blocks_to_markdown (map raw_of_block bs) title =
       Inr (convert_blocks_to_markdown bs title)
   \<and> (raw_type rb \<notin> Present ` {''paragraph'', ''heading_1'', ''heading_2'', ''heading_3'',
         ''bulleted_list_item'', ''numbered_list_item'', ''code'', ''to_do'', ''quote''} \<longrightarrow>
       raw_convert_block md_lines rb = Inr md_lines
       \<and> raw_convert_blocks_to_markdown (rbs1 @ rb # rbs2) title =
           raw_convert_blocks_to_markdown (rbs1 @ rbs2) title)
   \<and> (btype b \<notin> Some ` {''paragraph'', ''heading_1'', ''heading_2'', ''heading_3'',
         ''bulleted_list_item'', ''numbered_list_item'', ''code'', ''to_do'', ''quote''} \<longrightarrow>
       convert_block md_lines b = md_lines
       \<and> convert_blocks_to_markdown (bs1 @ b # bs2) title =
           convert_blocks_to_markdown (bs1 @ bs2) title)"
proof -
  have total: "(\<forall>rb\<in>set rbs. schema_typed rb) \<longrightarrow>
      (\<exists>md. raw_convert_blocks_to_markdown rbs title = Inr md)"
  proof
    assume "\<forall>rb\<in>set rbs. schema_typed rb"
    from raw_convert_loop_typed [OF this, of "title_lines title"]
    show "\<exists>md. raw_convert_blocks_to_markdown rbs title = Inr md"
      by (auto simp: raw_convert_blocks_to_markdown_def)
  qed
  have agree: "raw_convert_blocks_to_markdown (map raw_of_block bs) title =
       Inr (convert_blocks_to_markdown bs title)"
    by (simp add: raw_convert_blocks_to_markdown_def raw_convert_loop_of_blocks
        convert_blocks_to_markdown_def)
  have raw_skip: "raw_convert_block md_lines rb = Inr md_lines
       \<and> raw_convert_blocks_to_markdown (rbs1 @ rb # rbs2) title =
           raw_convert_blocks_to_markdown (rbs1 @ rbs2) title"
    if "raw_type rb \<notin> Present ` {''paragraph'', ''heading_1'', ''heading_2'', ''heading_3'',
         ''bulleted_list_item'', ''numbered_list_item'', ''code'', ''to_do'', ''quote''}"
  proof -
    from that have skip: "raw_convert_block ls rb = Inr ls" for ls
      by (rule raw_convert_block_skip)
    then have step: "raw_convert_loop ls (rb # rbs2) = raw_convert_loop ls rbs2" for ls
      by simp
    have "raw_convert_loop ls (rbs1 @ rb # rbs2) = raw_convert_loop ls (rbs1 @ rbs2)" for ls
      by (simp only: raw_convert_loop_append step)
    with skip show ?thesis
      by (simp add: raw_convert_blocks_to_markdown_def)
  qed
  have typed_skip: "convert_block md_lines b = md_lines
       \<and> convert_blocks_to_markdown (bs1 @ b # bs2) title =
           convert_blocks_to_markdown (bs1 @ bs2) title"
    if "btype b \<notin> Some ` {''paragraph'', ''heading_1'', ''heading_2'', ''heading_3'',
         ''bulleted_list_item'', ''numbered_list_item'', ''code'', ''to_do'', ''quote''}"
  proof -
    from that have skip: "convert_block ls b = ls" for ls
      by (simp add: convert_block_def)
    then show ?thesis
      by (simp add: convert_eq)
  qed
  from total agree raw_skip typed_skip show ?thesis
    by blast
qed

theorem unknown_type_skipped_witness:
  "(\<exists>md. raw_convert_blocks_to_markdown
       [\<lparr>raw_type = Present ''code'',
          raw_entries =
            [(''code'',
              Some \<lparr>raw_rich_text = PyNone, raw_language = PyNone, raw_checked = Absent\<rparr>)]\<rparr>]
       None = Inr md)
   \<and> raw_convert_blocks_to_markdown
       [raw_of_block (text_block ''paragraph'' ''a''),
        \<lparr>raw_type = Present ''table'', raw_entries = [(''table'', None)]\<rparr>,
        raw_of_block (text_block ''quote'' ''b'')] None =
     raw_convert_blocks_to_markdown
       [raw_of_block (text_block ''paragraph'' ''a''),
        raw_of_block (text_block ''quote'' ''b'')] None
   \<and> convert_blocks_to_markdown
       [text_block ''paragraph'' ''a'', text_block ''table'' ''x'', text_block ''quote'' ''b''] None =
     convert_blocks_to_markdown [text_block ''paragraph'' ''a'', text_block ''quote'' ''b''] None
   \<and> convert_blocks_to_markdown
       [text_block ''paragraph'' ''a'', text_block ''table'' ''x'', text_block ''quote'' ''b''] None =
     ''a'' @ [newline, newline] @ ''> b'' @ [newline]"
proof -
  have a: "schema_typed
       \<lparr>raw_type = Present ''code'',
          raw_entries =
            [(''code'',
              Some \<lparr>raw_rich_text = PyNone, raw_language = PyNone, raw_checked = Absent\<rparr>)]\<rparr>"
    by (simp add: schema_typed_def typed_payload_def)
  have b: "convert_blocks_to_markdown
        [text_block ''paragraph'' ''a'', text_block ''quote'' ''b''] None
      = ''a'' @ [newline, newline] @ ''> b'' @ [newline]"
    by code_simp
  show ?thesis
    using unknown_type_skipped [of
        "[\<lparr>raw_type = Present ''code'',
           raw_entries =
             [(''code'',
               Some \<lparr>raw_rich_text = PyNone, raw_language = PyNone, raw_checked = Absent\<rparr>)]\<rparr>]"
        None "[]" "\<lparr>raw_type = Present ''table'', raw_entries = [(''table'', None)]\<rparr>"
        "[]" "[raw_of_block (text_block ''paragraph'' ''a'')]"
        "[raw_of_block (text_block ''quote'' ''b'')]" "text_block ''table'' ''x''"
        "[text_block ''paragraph'' ''a'']" "[text_block ''quote'' ''b'']"] a b
    by (simp add: text_block_def)
qed


text \<open>
  Claim C9. A block of type \<open>heading_1\<close> is not skipped: it adds the line \<open>"# "\<close>
  followed by the joined text, and a blank line after it.
\<close>

theorem heading_1_serialized:
  "btype b = Some ''heading_1'' \<Longrightarrow>
   convert_block md_lines b =
     md_lines @ [''# '' @ extract_text_content (get_rich_text (get_payload b ''heading_1'')), []]"
  by (simp add: convert_block_def)

theorem heading_1_serialized_witness:
  "convert_block [''x''] (text_block ''heading_1'' ''Top'') = [''x'', ''# Top'', []]
   \<and> convert_blocks_to_markdown [text_block ''heading_1'' ''Top''] None = ''# Top'' @ [newline]"
proof -
  have "extract_text_content (get_rich_text (get_payload (text_block ''heading_1'' ''Top'') ''heading_1'')) = ''Top''"
    by code_simp
  moreover have "convert_blocks_to_markdown [text_block ''heading_1'' ''Top''] None = ''# Top'' @ [newline]"
    by code_simp
  ultimately show ?thesis
    using heading_1_serialized [of "text_block ''heading_1'' ''Top''" "[''x'']"]
    by (simp add: text_block_def)
qed


text \<open>
  Claim C2, as stated, fails: a \<open>to_do\<close> block is one line with no blank line after it,
  and the paragraph after a group of list items follows the last item directly, with no
  blank line between them.
\<close>

theorem trailing_blank_counterexample:
  "convert_blocks_to_markdown [text_block ''to_do'' ''a'', text_block ''paragraph'' ''b''] None =
     ''- [ ] a'' @ [newline] @ ''b'' @ [newline]
   \<and> convert_blocks_to_markdown
       [text_block ''bulleted_list_item'' ''a'', text_block ''bulleted_list_item'' ''b'',
        text_block ''paragraph'' ''c''] None =
     ''- a'' @ [newline] @ ''- b'' @ [newline] @ ''c'' @ [newline]"
  by code_simp

text \<open>
  Claim C2, amended. A block of type \<open>paragraph\<close>, \<open>heading_1\<close>, \<open>heading_2\<close>,
  \<open>heading_3\<close>, \<open>code\<close> or \<open>quote\<close> adds its lines and then a blank line; a block of
  type \<open>bulleted_list_item\<close>, \<open>numbered_list_item\<close> or \<open>to_do\<close> adds one line and no
  blank line. Two bulleted items in a row have no blank line between them, and the line
  of a paragraph after them comes directly after the last item, followed by the
  paragraph's own blank line.
\<close>

theorem trailing_blank_lines:
  "(btype b \<in> Some ` {''paragraph'', ''heading_1'', ''heading_2'', ''heading_3'', ''code'',
        ''quote''} \<longrightarrow>
      (\<exists>ls. ls \<noteq> [] \<and> convert_block md_lines b = md_lines @ ls @ [[]]))
   \<and> (btype b \<in> Some ` {''bulleted_list_item'', ''numbered_list_item'', ''to_do''} \<longrightarrow>
      (\<exists>l. l \<noteq> [] \<and> convert_block md_lines b = md_lines @ [l]))
   \<and> convert_blocks_to_markdown
       [text_block ''bulleted_list_item'' x, text_block ''bulleted_list_item'' y,
        text_block ''paragraph'' z] None =
     join_nl [''- '' @ x, ''- '' @ y, z, []]"
proof -
  have "btype b \<in> Some ` {''paragraph'', ''heading_1'', ''heading_2'', ''heading_3'', ''code'',
        ''quote''} \<longrightarrow>
      (\<exists>ls. ls \<noteq> [] \<and> convert_block md_lines b = md_lines @ ls @ [[]])"
    by (auto simp: convert_block_def Let_def)
  moreover have "btype b \<in> Some ` {''bulleted_list_item'', ''numbered_list_item'', ''to_do''} \<longrightarrow>
      (\<exists>l. l \<noteq> [] \<and> convert_block md_lines b = md_lines @ [l])"
    by (auto simp: convert_block_def Let_def)
  moreover have "convert_blocks_to_markdown
       [text_block ''bulleted_list_item'' x, text_block ''bulleted_list_item'' y,
        text_block ''paragraph'' z] None =
     join_nl [''- '' @ x, ''- '' @ y, z, []]"
  proof -
    have "convert_block [] (text_block ''bulleted_list_item'' c) = [''- '' @ c]" for c
      using text_block_text [of "''bulleted_list_item''" c]
      by (simp add: convert_block_def) (simp add: text_block_def)
    moreover have "convert_block [] (text_block ''paragraph'' z) = [z, []]"
      using text_block_text [of "''paragraph''" z]
      by (simp add: convert_block_def) (simp add: text_block_def)
    ultimately show ?thesis
      by (simp add: convert_eq title_lines_def)
  qed
  ultimately show ?thesis by blast
qed

theorem trailing_blank_lines_witness:
  "(\<exists>ls. ls \<noteq> [] \<and> convert_block [''x''] (text_block ''quote'' ''q'') = [''x''] @ ls @ [[]])
   \<and> (\<exists>l. l \<noteq> [] \<and> convert_block [''x''] (text_block ''to_do'' ''t'') = [''x''] @ [l])"
  using trailing_blank_lines [of "text_block ''quote'' ''q''" "[''x'']"]
    trailing_blank_lines [of "text_block ''to_do'' ''t''" "[''x'']"]
  by (simp add: text_block_def)


section \<open>Title extraction\<close>

lemma title_scan_none:
  "\<forall>l\<in>set lines. \<not> startswith ''# '' l \<Longrightarrow> title_scan lines i = (None, 0)"
  by (induction lines arbitrary: i) simp_all

lemma title_scan_found:
  "\<forall>l\<in>set pre. \<not> startswith ''# '' l \<Longrightarrow> startswith ''# '' t \<Longrightarrow>
   title_scan (pre @ t # post) i = (Some (strip (drop 2 t)), i + length pre + 1)"
  by (induction pre arbitrary: i) simp_all

lemma parse_hello: 
  "parse_markdown_to_blocks (''# Hello'' @ [newline] @ ''Body'') =
     Inr ([text_block ''paragraph'' ''Body''], ''Hello'')"
  by code_simp

text \<open>
  Claim C5. When no line of the stripped input starts with \<open>"# "\<close>, the title is
  \<open>""\<close> and the body loop runs over all lines from index 0. Otherwise, with \<open>t\<close> the
  first such line, the title is the rest of \<open>t\<close> after its two first characters,
  stripped; the loop starts at the line after \<open>t\<close>, so its blocks are those of the lines
  after \<open>t\<close> alone and the lines before \<open>t\<close> give none. The input \<open>"# Hello\nBody"\<close>
  gives the title \<open>Hello\<close> and the one paragraph \<open>Body\<close>.
\<close>

theorem title_extraction:
  "((\<forall>l\<in>set (split_nl (strip md)). \<not> startswith ''# '' l) \<longrightarrow>
      (\<exists>blocks. body_loop (split_nl (strip md)) 0 [] = Inr blocks
         \<and> parse_markdown_to_blocks md = Inr (blocks, [])))
   \<and> (split_nl (strip md) = pre @ t # post \<and> (\<forall>l\<in>set pre. \<not> startswith ''# '' l)
        \<and> startswith ''# '' t \<longrightarrow>
      (\<exists>blocks. body_loop (split_nl (strip md)) (length pre + 1) [] = Inr blocks
         \<and> body_loop post 0 [] = Inr blocks
         \<and> parse_markdown_to_blocks md = Inr (blocks, strip (drop 2 t))))
   \<and> parse_markdown_to_blocks (''# Hello'' @ [newline] @ ''Body'') =
        Inr ([text_block ''paragraph'' ''Body''], ''Hello'')"
proof -
  have "(\<forall>l\<in>set (split_nl (strip md)). \<not> startswith ''# '' l) \<longrightarrow>
      (\<exists>blocks. body_loop (split_nl (strip md)) 0 [] = Inr blocks
         \<and> parse_markdown_to_blocks md = Inr (blocks, []))"
    by (simp add: parse_markdown_to_blocks_def title_scan_none body_loop_eq)
  moreover have "split_nl (strip md) = pre @ t # post \<and> (\<forall>l\<in>set pre. \<not> startswith ''# '' l)
        \<and> startswith ''# '' t \<longrightarrow>
      (\<exists>blocks. body_loop (split_nl (strip md)) (length pre + 1) [] = Inr blocks
         \<and> body_loop post 0 [] = Inr blocks
         \<and> parse_markdown_to_blocks md = Inr (blocks, strip (drop 2 t)))"
    by (simp add: parse_markdown_to_blocks_def title_scan_found body_loop_eq)
  ultimately show ?thesis
    using parse_hello by blast
qed

theorem title_extraction_witness:
  "(\<exists>blocks. body_loop [''Body''] 0 [] = Inr blocks
      \<and> parse_markdown_to_blocks ''Body'' = Inr (blocks, []))
   \<and> (\<exists>blocks. body_loop [''Body''] 0 [] = Inr blocks
      \<and> parse_markdown_to_blocks (''intro'' @ [newline] @ ''#  Hello '' @ [newline] @ ''Body'') =
          Inr (blocks, ''Hello''))"
proof -
  have a: "split_nl (strip ''Body'') = [''Body'']"
    by code_simp
  have b: "split_nl (strip (''intro'' @ [newline] @ ''#  Hello '' @ [newline] @ ''Body'')) =
      [''intro''] @ ''#  Hello '' # [''Body'']"
    by code_simp
  have c: "strip (drop 2 ''#  Hello '') = ''Hello''"
    by code_simp
  have d: "startswith ''# '' ''#  Hello ''" "\<not> startswith ''# '' ''intro''"
    "\<not> startswith ''# '' ''Body''"
    by (simp_all add: startswith_def)
  show ?thesis
    using title_extraction [of "''Body''" "[]" "[]" "[]"]
      title_extraction [of "''intro'' @ [newline] @ ''#  Hello '' @ [newline] @ ''Body''"
        "[''intro'']" "''#  Hello ''" "[''Body'']"] a b c d
    by simp blast
qed

section \<open>The input is stripped first\<close>

lemma parse_indented_title: "parse_markdown_to_blocks ''   # Hello'' = Inr ([], ''Hello'')"
  by code_simp

lemma parse_open_fence_blank:
  "parse_markdown_to_blocks (''```js'' @ [newline] @ ''foo'' @ [newline, newline, newline]) =
     Inr ([code_block ''foo'' ''js''], [])"
  by code_simp

text \<open>
  Claim C10. The parser reads its input only through \<open>md.strip()\<close>: whitespace added
  before and after the input changes nothing of the result. So a title line with leading
  spaces at the very start of the input is still the title, and the blank lines that end
  the input are not part of the text of a fence left open.
\<close>

theorem input_strip:
  "((\<forall>c\<in>set w1. py_isspace c) \<and> (\<forall>c\<in>set w2. py_isspace c) \<longrightarrow>
     parse_markdown_to_blocks (w1 @ md @ w2) = parse_markdown_to_blocks md)
   \<and> parse_markdown_to_blocks ''   # Hello'' = Inr ([], ''Hello'')
   \<and> parse_markdown_to_blocks (''```js'' @ [newline] @ ''foo'' @ [newline, newline, newline]) =
     Inr ([code_block ''foo'' ''js''], [])"
  using parse_indented_title parse_open_fence_blank
  by (simp add: parse_markdown_to_blocks_def strip_ws_append)

theorem input_strip_witness:
  "parse_markdown_to_blocks ([CHR 0x09, CHR 0x20] @ ''- a'' @ [newline, CHR 0x0D]) =
     parse_markdown_to_blocks ''- a''"
  using input_strip [of "[CHR 0x09, CHR 0x20]" "[newline, CHR 0x0D]" "''- a''"]
  by (simp add: py_isspace_def newline_def)

section \<open>Code fences\<close>

lemma fence_not_other:
  assumes "startswith ''```'' line"
  shows "\<not> startswith ''## '' line" "\<not> startswith ''### '' line" "\<not> startswith ''- '' line"
    "\<not> py_isdigit (hd line)" "numbered_test line = Inr False"
  using assms by (auto simp: startswith_iff py_isdigit_def numbered_test_eq)

lemma parse_open_fence:
  "parse_markdown_to_blocks (''```js'' @ [newline] @ ''foo'') = Inr ([code_block ''foo'' ''js''], [])"
  by code_simp

lemma parse_closed_fence:
  "parse_markdown_to_blocks
     (''```python'' @ [newline] @ ''print(1)'' @ [newline] @ ''print(2)'' @ [newline] @ ''```'') =
   Inr ([code_block (''print(1)'' @ [newline] @ ''print(2)'') ''python''], [])"
  by code_simp

lemma parse_plain_fence:
  "parse_markdown_to_blocks (''```'' @ [newline] @ '' a '' @ [newline] @ ''```'') =
     Inr ([code_block '' a '' ''plain text''], [])"
  by code_simp

text \<open>
  Claim C4. At a line that starts with three backticks the loop appends exactly one
  \<open>code\<close> block and goes on two lines after the last accumulated line. The language is
  the rest of the fence line, stripped, or \<open>plain text\<close> when that is empty. The
  accumulated lines are the lines that follow, unchanged, up to the first one that starts
  with three backticks or to the end of the lines; that closing line, when there is one,
  is the one skipped. The text of the block is those lines joined with newlines, not
  stripped. The block is written out in full: its type is \<open>code\<close> and its one entry,
  under \<open>"code"\<close>, holds one text run with that text and the language. A fence left
  open gives its block all the same.
\<close>

theorem code_fence:
  "(i < length lines \<and> startswith ''```'' (lines ! i)
      \<and> code_lines = takeWhile (\<lambda>l. \<not> startswith ''```'' l) (drop (i + 1) lines)
      \<and> lang = strip (drop 3 (lines ! i)) \<longrightarrow>
     body_loop lines i blocks =
       body_loop lines (i + 1 + length code_lines + 1)
         (blocks @
          [\<lparr>btype = Some ''code'',
            entries =
              [(''code'',
                \<lparr>rich_text =
                   Some [\<lparr>rt_type = Some ''text'',
                          rt_text = Some \<lparr>tx_content = Some (join_nl code_lines)\<rparr>\<rparr>],
                 language = Some (if lang = [] then ''plain text'' else lang),
                 checked = None\<rparr>)]\<rparr>])
     \<and> (i + 1 + length code_lines < length lines \<longrightarrow>
          startswith ''```'' (lines ! (i + 1 + length code_lines)))
     \<and> (\<forall>k < length code_lines. code_lines ! k = lines ! (i + 1 + k)))
   \<and> parse_markdown_to_blocks (''```js'' @ [newline] @ ''foo'') =
       Inr ([\<lparr>btype = Some ''code'',
             entries =
               [(''code'',
                 \<lparr>rich_text =
                    Some [\<lparr>rt_type = Some ''text'',
                           rt_text = Some \<lparr>tx_content = Some (''foo'')\<rparr>\<rparr>],
                  language = Some (''js''),
                  checked = None\<rparr>)]\<rparr>], [])
   \<and> parse_markdown_to_blocks
       (''```python'' @ [newline] @ ''print(1)'' @ [newline] @ ''print(2)'' @ [newline] @ ''```'') =
       Inr ([\<lparr>btype = Some ''code'',
             entries =
               [(''code'',
                 \<lparr>rich_text =
                    Some [\<lparr>rt_type = Some ''text'',
                           rt_text = Some \<lparr>tx_content = Some (''print(1)'' @ [newline] @ ''print(2)'')\<rparr>\<rparr>],
                  language = Some (''python''),
                  checked = None\<rparr>)]\<rparr>], [])
   \<and> parse_markdown_to_blocks (''```'' @ [newline] @ '' a '' @ [newline] @ ''```'') =
       Inr ([\<lparr>btype = Some ''code'',
             entries =
               [(''code'',
                 \<lparr>rich_text =
                    Some [\<lparr>rt_type = Some ''text'',
                           rt_text = Some \<lparr>tx_content = Some ('' a '')\<rparr>\<rparr>],
                  language = Some (''plain text''),
                  checked = None\<rparr>)]\<rparr>], [])"
proof -
  have "body_loop lines i blocks =
       body_loop lines (i + 1 + length code_lines + 1)
         (blocks @ [code_block (join_nl code_lines)
                      (if lang = [] then ''plain text'' else lang)])
     \<and> (i + 1 + length code_lines < length lines \<longrightarrow>
          startswith ''```'' (lines ! (i + 1 + length code_lines)))
     \<and> (\<forall>k < length code_lines. code_lines ! k = lines ! (i + 1 + k))"
    if i: "i < length lines" and f: "startswith ''```'' (lines ! i)"
      and cl: "code_lines = takeWhile (\<lambda>l. \<not> startswith ''```'' l) (drop (i + 1) lines)"
      and la: "lang = strip (drop 3 (lines ! i))"
  proof (intro conjI allI impI)
    from i have d: "drop i lines = lines ! i # drop (Suc i) lines"
      by (simp add: Cons_nth_drop_Suc)
    have dw: "drop (Suc (Suc (i + length (takeWhile P (drop (Suc i) lines))))) lines =
               drop 1 (dropWhile P (drop (Suc i) lines))" for P
      by (simp add: dropWhile_eq_drop add.commute)
    show "body_loop lines i blocks =
       body_loop lines (i + 1 + length code_lines + 1)
         (blocks @ [code_block (join_nl code_lines)
                      (if lang = [] then ''plain text'' else lang)])"
      using fence_not_other [OF f] f
      by (simp add: body_loop_eq d dw parse_rest.simps cl la del: drop_Suc_Cons)
  next
    assume "i + 1 + length code_lines < length lines"
    then have "dropWhile (\<lambda>l. \<not> startswith ''```'' l) (drop (i + 1) lines) \<noteq> []"
      by (simp add: cl dropWhile_eq_drop)
    then have "startswith ''```'' (hd (dropWhile (\<lambda>l. \<not> startswith ''```'' l) (drop (i + 1) lines)))"
      using hd_dropWhile [of "\<lambda>l. \<not> startswith ''```'' l" "drop (i + 1) lines"] by simp
    then show "startswith ''```'' (lines ! (i + 1 + length code_lines))"
      using \<open>i + 1 + length code_lines < length lines\<close>
      by (simp add: cl dropWhile_eq_drop hd_drop_conv_nth add.commute add.left_commute)
  next
    fix k assume "k < length code_lines"
    then show "code_lines ! k = lines ! (i + 1 + k)"
      using length_takeWhile_le [of "\<lambda>l. \<not> startswith ''```'' l" "drop (i + 1) lines"]
      by (simp add: cl takeWhile_nth)
  qed
  then show ?thesis
    using parse_open_fence parse_closed_fence parse_plain_fence
    by (simp add: code_block_def text_run_def)
qed

theorem code_fence_witness:
  "body_loop [''```js'', ''foo'', '' bar'', ''```'', ''x''] 0 [] =
     body_loop [''```js'', ''foo'', '' bar'', ''```'', ''x''] 4
       [\<lparr>btype = Some ''code'',
         entries =
           [(''code'',
             \<lparr>rich_text =
                Some [\<lparr>rt_type = Some ''text'',
                       rt_text = Some \<lparr>tx_content = Some (''foo'' @ [newline] @ '' bar'')\<rparr>\<rparr>],
              language = Some (''js''),
              checked = None\<rparr>)]\<rparr>]
   \<and> startswith ''```'' ([''```js'', ''foo'', '' bar'', ''```'', ''x''] ! 3)"
proof -
  have a: "strip (drop 3 ''```js'') = ''js''"
    by code_simp
  have b: "takeWhile (\<lambda>l. \<not> startswith ''```'' l) [''foo'', '' bar'', ''```'', ''x''] =
      [''foo'', '' bar'']"
    by (simp add: startswith_def)
  have c: "startswith ''```'' ''```js''"
    by (simp add: startswith_def)
  show ?thesis
    using code_fence [of 0 "[''```js'', ''foo'', '' bar'', ''```'', ''x'']" "[''foo'', '' bar'']"
        "''js''" "[]"] a b c
    by (simp add: eval_nat_numeral)
qed

section \<open>Finding a substring\<close>







section \<open>Numbered list items\<close>









section \<open>Splitting and joining lines\<close>

lemma split_nl_not_Nil [simp]: "split_nl s \<noteq> []"
  by (induction s) (auto split: list.splits)

lemma split_nl_no_newline: "newline \<notin> set l \<Longrightarrow> split_nl l = [l]"
  by (induction l) auto

lemma split_nl_append: "split_nl (a @ newline # b) = split_nl a @ split_nl b"
  by (induction a) (auto split: list.splits)

lemma join_nl_Cons: "ls \<noteq> [] \<Longrightarrow> join_nl (l # ls) = l @ newline # join_nl ls"
  by (cases ls) simp_all

lemma join_nl_append:
  "xs \<noteq> [] \<Longrightarrow> ys \<noteq> [] \<Longrightarrow> join_nl (xs @ ys) = join_nl xs @ newline # join_nl ys"
proof (induction xs rule: join_nl.induct)
  case 1
  then show ?case by simp
next
  case (2 l)
  then show ?case by (simp add: join_nl_Cons)
next
  case (3 l v va)
  then show ?case by simp
qed

lemma split_join: "ls \<noteq> [] \<Longrightarrow> split_nl (join_nl ls) = concat (map split_nl ls)"
proof (induction ls rule: join_nl.induct)
  case 1
  then show ?case by simp
next
  case (2 l)
  then show ?case by simp
next
  case (3 l v va)
  then show ?case by (simp add: split_nl_append)
qed

lemma join_split: "join_nl (split_nl c) = c"
proof (induction c)
  case Nil
  then show ?case by simp
next
  case (Cons x c)
  show ?case
  proof (cases "x = newline")
    case True
    with Cons show ?thesis by (simp add: join_nl_Cons)
  next
    case False
    obtain l ls where s: "split_nl c = l # ls"
      by (cases "split_nl c") simp_all
    with Cons have "join_nl (l # ls) = c" by simp
    then have "join_nl ((x # l) # ls) = x # c"
      by (cases ls) auto
    with False s show ?thesis by simp
  qed
qed

lemma join_nl_ends:
  assumes "solid_ends ls"
  shows "join_nl ls \<noteq> []" "hd (join_nl ls) = hd (hd ls)" "last (join_nl ls) = last (last ls)"
proof -
  from assms obtain l rest where l: "ls = l # rest" "l \<noteq> []"
    by (cases ls) (auto simp: solid_ends_def)
  then show "join_nl ls \<noteq> []" "hd (join_nl ls) = hd (hd ls)"
    by (cases rest; simp)+
  from assms obtain xs y where y: "ls = xs @ [y]" "y \<noteq> []"
    by (cases ls rule: rev_cases) (auto simp: solid_ends_def)
  then show "last (join_nl ls) = last (last ls)"
    by (cases "xs = []") (simp_all add: join_nl_append)
qed

lemma strip_join:
  assumes "solid_ends ls" and "tr = [] \<or> tr = [[]]"
  shows "strip (join_nl (ls @ tr)) = join_nl ls"
proof -
  from assms(1) have ne: "ls \<noteq> []"
    by (simp add: solid_ends_def)
  from join_nl_ends [OF assms(1)] assms(1) have id: "strip (join_nl ls) = join_nl ls"
    by (intro strip_id) (simp_all add: solid_ends_def)
  from assms(2) show ?thesis
  proof
    assume "tr = []"
    with id show ?thesis by simp
  next
    assume "tr = [[]]"
    with ne have "join_nl (ls @ tr) = [] @ join_nl ls @ [newline]"
      by (simp add: join_nl_append)
    then have "strip (join_nl (ls @ tr)) = strip (join_nl ls)"
      using strip_ws_append [of "[]" "[newline]" "join_nl ls"] py_isspace_newline by simp
    with id show ?thesis by simp
  qed
qed


section \<open>Serializing and parsing one canonical block\<close>

lemma trimmed_line_strip: "trimmed_line c \<Longrightarrow> strip c = c"
  by (simp add: trimmed_line_def strip_id)

lemma strip_not_Nil: "c \<in> set s \<Longrightarrow> \<not> py_isspace c \<Longrightarrow> strip s \<noteq> []"
  by (auto simp: strip_Nil_iff)

lemma block_text_text_block [simp]: "block_text (text_block ty c) = c"
  using text_block_text [of ty c] by (simp add: block_text_def) (simp add: text_block_def)

lemma block_text_code_block [simp]: "block_text (code_block c l) = c"
  by (simp add: block_text_def code_block_def get_payload_def get_rich_text_def
      extract_text_content_def text_run_def get_text_content_def)

lemma btype_text_block [simp]: "btype (text_block ty c) = Some ty"
  by (simp add: text_block_def)

lemma btype_code_block [simp]: "btype (code_block c l) = Some ''code''"
  by (simp add: code_block_def)

lemma parse_rest_heading_2:
  "trimmed_line c \<Longrightarrow>
   parse_rest ((''## '' @ c) # rest) = text_block ''heading_2'' c # parse_rest rest"
  by (simp add: parse_rest.simps startswith_def trimmed_line_strip)

lemma parse_rest_heading_3:
  "trimmed_line c \<Longrightarrow>
   parse_rest ((''### '' @ c) # rest) = text_block ''heading_3'' c # parse_rest rest"
  by (simp add: parse_rest.simps startswith_def trimmed_line_strip)

lemma parse_rest_bulleted:
  "trimmed_line c \<Longrightarrow>
   parse_rest ((''- '' @ c) # rest) = text_block ''bulleted_list_item'' c # parse_rest rest"
  by (simp add: parse_rest.simps startswith_def trimmed_line_strip)

lemma parse_rest_numbered:
  "trimmed_line c \<Longrightarrow>
   parse_rest ((''1. '' @ c) # rest) = text_block ''numbered_list_item'' c # parse_rest rest"
proof -
  assume c: "trimmed_line c"
  have "strip (''1. '' @ c) \<noteq> []"
    by (rule strip_not_Nil [of "CHR ''1''"]) (simp_all add: py_isspace_def)
  moreover have "py_in ''. '' (''1. '' @ c)"
    by (simp add: py_in_def startswith_def)
  moreover have "py_split1 ''. '' (''1. '' @ c) ! 1 = c"
    by (simp add: py_split1_def startswith_def)
  ultimately show ?thesis
    using c by (simp add: parse_rest.simps startswith_def trimmed_line_strip py_isdigit_def)
qed

lemma parse_rest_paragraph:
  "trimmed_line c \<Longrightarrow> \<not> startswith ''## '' c \<Longrightarrow> \<not> startswith ''### '' c \<Longrightarrow>
   \<not> startswith ''- '' c \<Longrightarrow> \<not> (py_isdigit (hd c) \<and> py_in ''. '' c) \<Longrightarrow>
   \<not> startswith ''```'' c \<Longrightarrow>
   parse_rest (c # rest) = text_block ''paragraph'' c # parse_rest rest"
  by (auto simp add: parse_rest.simps trimmed_line_strip) (simp_all add: trimmed_line_def)

lemma parse_rest_code:
  "\<forall>l\<in>set ls. \<not> startswith ''```'' l \<Longrightarrow>
   parse_rest ((''```'' @ lang) # ls @ ''```'' # rest) =
     code_block (join_nl ls) (if strip lang \<noteq> [] then strip lang else ''plain text'')
     # parse_rest rest"
proof -
  assume ls: "\<forall>l\<in>set ls. \<not> startswith ''```'' l"
  have f: "startswith ''```'' (''```'' @ lang)" "startswith ''```'' ''```''"
    by (simp_all add: startswith_def)
  from ls have tw: "takeWhile (\<lambda>l. \<not> startswith ''```'' l) (ls @ ''```'' # rest) = ls"
    using f(2) by (simp add: takeWhile_append2)
  from ls have dw: "dropWhile (\<lambda>l. \<not> startswith ''```'' l) (ls @ ''```'' # rest) = ''```'' # rest"
    using f(2) by (simp add: dropWhile_append2)
  show ?thesis
    using fence_not_other [OF f(1)] f(1)
    by (subst parse_rest.simps) (simp add: tw dw)
qed


lemma block_shape_line:
  assumes "convert_block [] b = [line] @ tr" and "tr = [] \<or> tr = [[]]"
    and "line \<noteq> []" and "\<not> py_isspace (hd line)" and "\<not> py_isspace (last line)"
    and "newline \<notin> set line"
    and "\<And>rest. parse_rest (line # rest) = b' # parse_rest rest"
    and "btype b' = btype b" and "block_text b' = block_text b"
    and "t = [] \<Longrightarrow> \<not> startswith ''# '' line"
  shows "\<exists>core tr b'. convert_block [] b = core @ tr \<and> (tr = [] \<or> tr = [[]])
      \<and> solid_ends core \<and> btype b' = btype b \<and> block_text b' = block_text b
      \<and> (\<forall>rest. parse_rest (concat (map split_nl core) @ rest) = b' # parse_rest rest)
      \<and> (t = [] \<longrightarrow> (\<forall>l\<in>set (concat (map split_nl core)). \<not> startswith ''# '' l))"
proof -
  have "solid_ends [line]"
    using assms(3-5) by (simp add: solid_ends_def)
  moreover have "concat (map split_nl [line]) = [line]"
    using assms(6) by (simp add: split_nl_no_newline)
  ultimately show ?thesis
    using assms(1,2,7-10) by (intro exI [of _ "[line]"] exI [of _ tr] exI [of _ b']) simp
qed

lemma trimmed_prefix:
  assumes "trimmed_line c" and "p \<noteq> []" and "\<not> py_isspace (hd p)" and "newline \<notin> set p"
  shows "p @ c \<noteq> []" "\<not> py_isspace (hd (p @ c))" "\<not> py_isspace (last (p @ c))"
    "newline \<notin> set (p @ c)"
  using assms by (simp_all add: trimmed_line_def)

lemma block_shape:
  assumes "canonical_block t b"
  shows "\<exists>core tr b'. convert_block [] b = core @ tr \<and> (tr = [] \<or> tr = [[]])
      \<and> solid_ends core \<and> btype b' = btype b \<and> block_text b' = block_text b
      \<and> (\<forall>rest. parse_rest (concat (map split_nl core) @ rest) = b' # parse_rest rest)
      \<and> (t = [] \<longrightarrow> (\<forall>l\<in>set (concat (map split_nl core)). \<not> startswith ''# '' l))"
proof -
  from assms obtain ty where ty: "btype b = Some ty"
    by (auto simp: canonical_block_def split: option.splits)
  define c where "c = block_text b"
  have tc: "extract_text_content (get_rich_text (get_payload b ty)) = c"
    by (simp add: c_def block_text_def ty)
  from assms ty consider
      (h2) "ty = ''heading_2''" "trimmed_line c"
    | (h3) "ty = ''heading_3''" "trimmed_line c"
    | (bl) "ty = ''bulleted_list_item''" "trimmed_line c"
    | (nl) "ty = ''numbered_list_item''" "trimmed_line c"
    | (pa) "ty = ''paragraph''" "trimmed_line c" "\<not> startswith ''## '' c"
        "\<not> startswith ''### '' c" "\<not> startswith ''- '' c"
        "\<not> (py_isdigit (hd c) \<and> py_in ''. '' c)" "\<not> startswith ''```'' c"
        "t = [] \<longrightarrow> \<not> startswith ''# '' c"
    | (co) "ty = ''code''" "newline \<notin> set (get_language (get_payload b ''code''))"
        "\<forall>l\<in>set (split_nl c). \<not> startswith ''```'' l \<and> (t = [] \<longrightarrow> \<not> startswith ''# '' l)"
    by (auto simp: canonical_block_def c_def Let_def split: if_splits)
  then show ?thesis
  proof cases
    case h2
    show ?thesis
    proof (rule block_shape_line [where line = "''## '' @ c" and tr = "[[]]"
          and b' = "text_block ''heading_2'' c"])
      show "convert_block [] b = [''## '' @ c] @ [[]]"
        using ty h2(1) tc by (simp add: convert_block_def)
      show "parse_rest ((''## '' @ c) # rest) = text_block ''heading_2'' c # parse_rest rest" for rest
        using h2(2) by (rule parse_rest_heading_2)
    qed (use trimmed_prefix [OF h2(2), of "''## ''"] ty h2(1) in
        \<open>simp_all add: py_isspace_def newline_def c_def startswith_def\<close>)
  next
    case h3
    show ?thesis
    proof (rule block_shape_line [where line = "''### '' @ c" and tr = "[[]]"
          and b' = "text_block ''heading_3'' c"])
      show "convert_block [] b = [''### '' @ c] @ [[]]"
        using ty h3(1) tc by (simp add: convert_block_def)
      show "parse_rest ((''### '' @ c) # rest) = text_block ''heading_3'' c # parse_rest rest" for rest
        using h3(2) by (rule parse_rest_heading_3)
    qed (use trimmed_prefix [OF h3(2), of "''### ''"] ty h3(1) in
        \<open>simp_all add: py_isspace_def newline_def c_def startswith_def\<close>)
  next
    case bl
    show ?thesis
    proof (rule block_shape_line [where line = "''- '' @ c" and tr = "[]"
          and b' = "text_block ''bulleted_list_item'' c"])
      show "convert_block [] b = [''- '' @ c] @ []"
        using ty bl(1) tc by (simp add: convert_block_def)
      show "parse_rest ((''- '' @ c) # rest) = text_block ''bulleted_list_item'' c # parse_rest rest"
        for rest
        using bl(2) by (rule parse_rest_bulleted)
    qed (use trimmed_prefix [OF bl(2), of "''- ''"] ty bl(1) in
        \<open>simp_all add: py_isspace_def newline_def c_def startswith_def\<close>)
  next
    case nl
    show ?thesis
    proof (rule block_shape_line [where line = "''1. '' @ c" and tr = "[]"
          and b' = "text_block ''numbered_list_item'' c"])
      show "convert_block [] b = [''1. '' @ c] @ []"
        using ty nl(1) tc by (simp add: convert_block_def)
      show "parse_rest ((''1. '' @ c) # rest) = text_block ''numbered_list_item'' c # parse_rest rest"
        for rest
        using nl(2) by (rule parse_rest_numbered)
    qed (use trimmed_prefix [OF nl(2), of "''1. ''"] ty nl(1) in
        \<open>simp_all add: py_isspace_def newline_def c_def startswith_def\<close>)
  next
    case pa
    show ?thesis
    proof (rule block_shape_line [where line = c and tr = "[[]]"
          and b' = "text_block ''paragraph'' c"])
      show "convert_block [] b = [c] @ [[]]"
        using ty pa(1) tc by (simp add: convert_block_def)
      show "parse_rest (c # rest) = text_block ''paragraph'' c # parse_rest rest" for rest
        using pa(2-7) by (rule parse_rest_paragraph)
    qed (use pa ty in \<open>simp_all add: trimmed_line_def c_def\<close>)
  next
    case co
    define lang where "lang = get_language (get_payload b ''code'')"
    define fl where "fl = ''```'' @ lang"
    define core where "core = [fl, c, ''```'']"
    let ?b' = "code_block c (if strip lang \<noteq> [] then strip lang else ''plain text'')"
    have cv: "convert_block [] b = core @ [[]]"
      using ty co(1) tc by (simp add: convert_block_def lang_def fl_def core_def)
    have se: "solid_ends core"
      by (simp add: solid_ends_def py_isspace_def core_def fl_def)
    have "newline \<notin> set fl"
      using co(2) by (simp add: fl_def lang_def newline_def)
    then have sp: "concat (map split_nl core) = fl # split_nl c @ [''```'']"
      by (simp add: split_nl_no_newline core_def newline_def)
    have pr: "parse_rest (concat (map split_nl core) @ rest) = ?b' # parse_rest rest" for rest
    proof -
      from co(3) have "\<forall>l\<in>set (split_nl c). \<not> startswith ''```'' l"
        by blast
      from parse_rest_code [OF this, of lang rest] show ?thesis
        unfolding sp fl_def by (simp add: join_split)
    qed
    have nt: "t = [] \<longrightarrow> (\<forall>l\<in>set (concat (map split_nl core)). \<not> startswith ''# '' l)"
      unfolding sp fl_def using co(3) by (auto simp: startswith_def)
    show ?thesis
      using cv se pr nt ty co(1)
      by (intro exI [of _ core] exI [of _ "[[]]"] exI [of _ ?b']) (simp add: c_def)
  qed
qed


section \<open>The round trip\<close>

lemma solid_ends_append:
  "solid_ends xs \<Longrightarrow> solid_ends ys \<Longrightarrow> solid_ends (xs @ m @ ys)"
  by (simp add: solid_ends_def)

lemma blocks_shape:
  assumes "\<forall>b\<in>set bs. canonical_block t b" and "bs \<noteq> []"
  shows "\<exists>core tr bs'. concat (map (convert_block []) bs) = core @ tr \<and> (tr = [] \<or> tr = [[]])
      \<and> solid_ends core \<and> map btype bs' = map btype bs \<and> map block_text bs' = map block_text bs
      \<and> (\<forall>rest. parse_rest (concat (map split_nl core) @ rest) = bs' @ parse_rest rest)
      \<and> (t = [] \<longrightarrow> (\<forall>l\<in>set (concat (map split_nl core)). \<not> startswith ''# '' l))"
  using assms
proof (induction bs)
  case Nil
  then show ?case by simp
next
  case (Cons b bs)
  from Cons.prems block_shape [of t b] obtain core tr b' where
    b: "convert_block [] b = core @ tr" "tr = [] \<or> tr = [[]]" "solid_ends core"
       "btype b' = btype b" "block_text b' = block_text b"
       "\<And>rest. parse_rest (concat (map split_nl core) @ rest) = b' # parse_rest rest"
       "t = [] \<longrightarrow> (\<forall>l\<in>set (concat (map split_nl core)). \<not> startswith ''# '' l)"
    by auto
  show ?case
  proof (cases "bs = []")
    case True
    with b show ?thesis
      by (intro exI [of _ core] exI [of _ tr] exI [of _ "[b']"]) simp
  next
    case False
    with Cons obtain cores trs bs' where
      r: "concat (map (convert_block []) bs) = cores @ trs" "trs = [] \<or> trs = [[]]"
         "solid_ends cores" "map btype bs' = map btype bs"
         "map block_text bs' = map block_text bs"
         "\<And>rest. parse_rest (concat (map split_nl cores) @ rest) = bs' @ parse_rest rest"
         "t = [] \<longrightarrow> (\<forall>l\<in>set (concat (map split_nl cores)). \<not> startswith ''# '' l)"
      by auto
    have sp: "concat (map split_nl tr) = [] \<or> concat (map split_nl tr) = [[]]"
      using b(2) by auto
    have blank: "parse_rest (concat (map split_nl tr) @ rest) = parse_rest rest" for rest
      using sp by (auto simp: parse_rest_blank)
    have pr: "parse_rest (concat (map split_nl (core @ tr @ cores)) @ rest) =
        (b' # bs') @ parse_rest rest" for rest
      by (simp add: b(6) blank r(6))
    have nt: "t = [] \<longrightarrow> (\<forall>l\<in>set (concat (map split_nl (core @ tr @ cores))).
        \<not> startswith ''# '' l)"
    proof (intro impI ballI)
      fix l
      assume t: "t = []" and "l \<in> set (concat (map split_nl (core @ tr @ cores)))"
      then consider "l \<in> set (concat (map split_nl core))"
        | "l \<in> set (concat (map split_nl tr))" | "l \<in> set (concat (map split_nl cores))"
        by auto
      then show "\<not> startswith ''# '' l"
      proof cases
        case 1
        with b(7) t show ?thesis by blast
      next
        case 2
        with b(2) have "l = []" by auto
        then show ?thesis by (simp add: startswith_def)
      next
        case 3
        with r(7) t show ?thesis by blast
      qed
    qed
    show ?thesis
      using b(1,4,5) r(1,2,4,5) solid_ends_append [OF b(3) r(3), of tr] pr nt
      by (intro exI [of _ "core @ tr @ cores"] exI [of _ trs] exI [of _ "b' # bs'"]) simp
  qed
qed


lemma parse_lines_eq:
  assumes "split_nl (strip md) = lines"
  shows "parse_markdown_to_blocks md =
     Inr (parse_rest (drop (snd (title_scan lines 0)) lines),
          case fst (title_scan lines 0) of None \<Rightarrow> [] | Some t \<Rightarrow> t)"
  using assms by (simp add: parse_eq)

lemma roundtrip_untitled:
  assumes "\<forall>b\<in>set bs. canonical_block [] b"
  shows "\<exists>bs'. parse_markdown_to_blocks (convert_blocks_to_markdown bs (Some [])) = Inr (bs', [])
      \<and> map btype bs' = map btype bs \<and> map block_text bs' = map block_text bs"
proof (cases "bs = []")
  case True
  then show ?thesis
    by (simp add: convert_eq title_lines_def parse_empty)
next
  case False
  from blocks_shape [OF assms False] obtain core tr bs' where
    r: "concat (map (convert_block []) bs) = core @ tr" "tr = [] \<or> tr = [[]]"
       "solid_ends core" "map btype bs' = map btype bs" "map block_text bs' = map block_text bs"
       "\<And>rest. parse_rest (concat (map split_nl core) @ rest) = bs' @ parse_rest rest"
       "\<forall>l\<in>set (concat (map split_nl core)). \<not> startswith ''# '' l"
    by auto
  define lines where "lines = concat (map split_nl core)"
  have md: "convert_blocks_to_markdown bs (Some []) = join_nl (core @ tr)"
    by (simp add: convert_eq title_lines_def r(1))
  have "core \<noteq> []"
    using r(3) by (simp add: solid_ends_def)
  then have "split_nl (strip (join_nl (core @ tr))) = lines"
    by (simp add: strip_join [OF r(3) r(2)] split_join lines_def)
  from parse_lines_eq [OF this] r(7) r(6) [of "[]"]
  have "parse_markdown_to_blocks (join_nl (core @ tr)) = Inr (bs', [])"
    by (simp add: title_scan_none lines_def parse_rest.simps(1))
  with md r(4,5) show ?thesis by simp
qed

lemma roundtrip_titled:
  assumes "trimmed_line t" and "\<forall>b\<in>set bs. canonical_block t b"
  shows "\<exists>bs'. parse_markdown_to_blocks (convert_blocks_to_markdown bs (Some t)) = Inr (bs', t)
      \<and> map btype bs' = map btype bs \<and> map block_text bs' = map block_text bs"
proof -
  define tl where "tl = ''# '' @ t"
  from assms(1) have tne: "t \<noteq> []"
    by (simp add: trimmed_line_def)
  have tl: "solid_ends [tl]" "newline \<notin> set tl" "startswith ''# '' tl"
    "strip (drop 2 tl) = t"
    using assms(1) trimmed_prefix [OF assms(1), of "''# ''"]
    by (simp_all add: tl_def solid_ends_def py_isspace_def newline_def startswith_def
        trimmed_line_strip)
  show ?thesis
  proof (cases "bs = []")
    case True
    have "convert_blocks_to_markdown bs (Some t) = join_nl ([tl] @ [[]])"
      using tne True by (simp add: convert_eq title_lines_def tl_def)
    moreover have "split_nl (strip (join_nl ([tl] @ [[]]))) = [tl]"
      using strip_join [OF tl(1), of "[[]]"] tl(2) by (simp add: split_nl_no_newline)
    from parse_lines_eq [OF this]
    have "parse_markdown_to_blocks (join_nl ([tl] @ [[]])) = Inr ([], t)"
      by (simp add: tl(3,4) parse_rest.simps(1))
    ultimately show ?thesis using True by simp
  next
    case False
    from blocks_shape [OF assms(2) False] obtain core tr bs' where
      r: "concat (map (convert_block []) bs) = core @ tr" "tr = [] \<or> tr = [[]]"
         "solid_ends core" "map btype bs' = map btype bs"
         "map block_text bs' = map block_text bs"
         "\<And>rest. parse_rest (concat (map split_nl core) @ rest) = bs' @ parse_rest rest"
      by auto
    define lines where "lines = concat (map split_nl core)"
    define L where "L = [tl] @ [[]] @ core"
    have md: "convert_blocks_to_markdown bs (Some t) = join_nl (L @ tr)"
      using tne by (simp add: convert_eq title_lines_def r(1) tl_def L_def)
    have se: "solid_ends L"
      unfolding L_def using tl(1) r(3) by (rule solid_ends_append)
    have ne: "L \<noteq> []"
      by (simp add: L_def)
    have "strip (join_nl (L @ tr)) = join_nl L"
      using se r(2) by (rule strip_join)
    then have "split_nl (strip (join_nl (L @ tr))) = concat (map split_nl L)"
      using ne by (simp add: split_join)
    also have "\<dots> = tl # [] # lines"
      using tl(2) by (simp add: L_def lines_def split_nl_no_newline)
    finally have "split_nl (strip (join_nl (L @ tr))) = tl # [] # lines" .
    from parse_lines_eq [OF this] r(6) [of "[]"]
    have "parse_markdown_to_blocks (join_nl (L @ tr)) = Inr (bs', t)"
      by (simp add: tl(3,4) lines_def parse_rest_blank parse_rest.simps(1))
    with md r(4,5) show ?thesis by simp
  qed
qed


text \<open>
  Claim C1, as stated, fails: a document with no title and the one paragraph \<open>"- a"\<close>,
  which carries one text run, comes back as a bulleted list item.
\<close>

theorem roundtrip_counterexample:
  "parse_markdown_to_blocks
     (convert_blocks_to_markdown [text_block ''paragraph'' ''- a''] (Some [])) =
     Inr ([text_block ''bulleted_list_item'' ''a''], [])
   \<and> btype (text_block ''bulleted_list_item'' ''a'') \<noteq> btype (text_block ''paragraph'' ''- a'')
   \<and> get_rich_text (get_payload (text_block ''paragraph'' ''- a'') ''paragraph'') =
       [text_run ''- a'']"
  by code_simp

text \<open>
  Claim C1, amended. Let the title be empty or a trimmed line, and let every block be
  canonical for that title: one text run; a heading or list item whose text is a trimmed
  line; a paragraph whose text is a trimmed line that starts like no heading, list item
  or fence; a code block whose language has no newline and whose text has no line
  starting with three backticks; and, when the title is empty, no paragraph or code line
  starting with \<open>"# "\<close>. Then parsing the serialized document gives the title back and
  a block sequence with the same types and the same texts, in the same order.
\<close>

theorem roundtrip:
  "canonical_title t \<Longrightarrow> \<forall>b\<in>set bs. canonical_block t b \<Longrightarrow>
   \<exists>bs'. parse_markdown_to_blocks (convert_blocks_to_markdown bs (Some t)) = Inr (bs', t)
     \<and> map btype bs' = map btype bs \<and> map block_text bs' = map block_text bs"
proof -
  assume t: "canonical_title t" and bs: "\<forall>b\<in>set bs. canonical_block t b"
  show ?thesis
  proof (cases "t = []")
    case True
    with bs roundtrip_untitled [of bs] show ?thesis by simp
  next
    case False
    with t have "trimmed_line t"
      by (simp add: canonical_title_def)
    then show ?thesis
      using bs by (rule roundtrip_titled)
  qed
qed

theorem roundtrip_witness:
  "\<exists>bs'. parse_markdown_to_blocks
       (convert_blocks_to_markdown
          [text_block ''heading_2'' ''A b'', text_block ''numbered_list_item'' ''x'',
           code_block (''# a'' @ [newline] @ '' b'') ''py'', text_block ''paragraph'' ''p.'']
          (Some ''T'')) = Inr (bs', ''T'')
     \<and> map btype bs' = [Some ''heading_2'', Some ''numbered_list_item'', Some ''code'',
          Some ''paragraph'']
     \<and> map block_text bs' = [''A b'', ''x'', ''# a'' @ [newline] @ '' b'', ''p.'']"
proof -
  have t: "canonical_title ''T''"
    by code_simp
  have b: "canonical_block ''T'' (text_block ''heading_2'' ''A b'')"
    "canonical_block ''T'' (text_block ''numbered_list_item'' ''x'')"
    "canonical_block ''T'' (code_block (''# a'' @ [newline] @ '' b'') ''py'')"
    "canonical_block ''T'' (text_block ''paragraph'' ''p.'')"
    by code_simp+
  show ?thesis
    using roundtrip [of "''T''" "[text_block ''heading_2'' ''A b'',
        text_block ''numbered_list_item'' ''x'',
        code_block (''# a'' @ [newline] @ '' b'') ''py'', text_block ''paragraph'' ''p.'']"] t b
    by simp
qed


end
